theory Spec2Isabelle
  imports Main "HOL-Library.Word" "HOL-Library.Log_Nat"
begin

unbundle bit_operations_syntax

section \<open>Bytes and Python values\<close>

text \<open>
  A Python \<open>bytes\<close> object is a list of 8-bit words; an element read out of it is the
  unbounded integer \<open>uint b\<close>. Python integers are \<open>int\<close>. Exceptions that the modelled
  code can raise are values of \<open>py_error\<close>.
\<close>

type_synonym byte = "8 word"

datatype py_error = StructError | ZeroDivisionError | OverflowError

text \<open>\<open>struct.pack('<H', v)\<close>, \<open>struct.pack('>H', v)\<close> and \<open>struct.pack('B', v)\<close>: the value
  must fit the field, otherwise \<open>struct.error\<close> is raised.\<close>

definition pack_le16 :: "int \<Rightarrow> py_error + byte list" where
  "pack_le16 v = (if 0 \<le> v \<and> v \<le> 65535
                  then Inr [word_of_int (v mod 256), word_of_int (v div 256)]
                  else Inl StructError)"

definition pack_be16 :: "int \<Rightarrow> py_error + byte list" where
  "pack_be16 v = (if 0 \<le> v \<and> v \<le> 65535
                  then Inr [word_of_int (v div 256), word_of_int (v mod 256)]
                  else Inl StructError)"

definition pack_u8 :: "int \<Rightarrow> py_error + byte list" where
  "pack_u8 v = (if 0 \<le> v \<and> v \<le> 255 then Inr [word_of_int v] else Inl StructError)"

text \<open>\<open>struct.unpack('<H', bs)[0]\<close> and \<open>struct.unpack('>H', bs)[0]\<close> on the two bytes given.\<close>

definition unpack_le16 :: "byte \<Rightarrow> byte \<Rightarrow> int" where
  "unpack_le16 lo hi = uint lo + 256 * uint hi"

definition unpack_be16 :: "byte \<Rightarrow> byte \<Rightarrow> int" where
  "unpack_be16 hi lo = 256 * uint hi + uint lo"

text \<open>Sequencing of computations that may raise.\<close>

definition bind_err :: "py_error + 'a \<Rightarrow> ('a \<Rightarrow> py_error + 'b) \<Rightarrow> py_error + 'b" where
  "bind_err x f = (case x of Inl e \<Rightarrow> Inl e | Inr v \<Rightarrow> f v)"

text \<open>Decimal rendering of an integer, as an f-string does it.\<close>

definition digit_char :: "nat \<Rightarrow> char" where
  "digit_char d = ''0123456789'' ! d"

function str_nat :: "nat \<Rightarrow> string" where
  "str_nat n = (if n < 10 then [digit_char n] else str_nat (n div 10) @ [digit_char (n mod 10)])"
  by pat_completeness auto
termination
  by (relation "measure id") auto

declare str_nat.simps [simp del]

definition str_int :: "int \<Rightarrow> string" where
  "str_int i = (if i < 0 then CHR ''-'' # str_nat (nat (- i)) else str_nat (nat i))"

section \<open>CRC16 (ModbusMaster.calculate\_crc)\<close>

text \<open>
  The body of the inner loop: one shift/XOR iteration on the running value.
\<close>

definition crc_shift :: "int \<Rightarrow> int" where
  "crc_shift crc = (if crc AND 0x0001 \<noteq> 0 then drop_bit 1 crc XOR 0xA001 else drop_bit 1 crc)"

text \<open>The body of the outer loop: \<open>crc ^= byte\<close>, then eight iterations.\<close>

definition crc_byte :: "int \<Rightarrow> byte \<Rightarrow> int" where
  "crc_byte crc b = (crc_shift ^^ 8) (crc XOR uint b)"

definition calculate_crc :: "byte list \<Rightarrow> int" where
  "calculate_crc data = foldl crc_byte 0xFFFF data AND 0xFFFF"

section \<open>ModbusResponse\<close>

text \<open>
  The dataclass \<open>ModbusResponse\<close>. Its \<open>timestamp\<close> field is the wall-clock time of
  construction; no modelled operation reads it and it is left out of the record.
\<close>

record ModbusResponse =
  slave_id :: "int option"
  function_code :: "int option"
  data :: "byte list option"
  exception_code :: "int option"
  timeout :: bool
  crc_error :: bool
  raw_frame :: "byte list option"

text \<open>The constructor with every field at its default.\<close>

definition response_default :: ModbusResponse where
  "response_default = \<lparr>slave_id = None, function_code = None, data = None,
     exception_code = None, timeout = False, crc_error = False, raw_frame = None\<rparr>"

definition is_valid :: "ModbusResponse \<Rightarrow> bool" where
  "is_valid r = (\<not> timeout r \<and> \<not> crc_error r)"

definition is_exception :: "ModbusResponse \<Rightarrow> bool" where
  "is_exception r = (exception_code r \<noteq> None)"

definition exceptions_table :: "(int \<times> string) list" where
  "exceptions_table =
    [(1, ''Illegal Function''),
     (2, ''Illegal Data Address''),
     (3, ''Illegal Data Value''),
     (4, ''Slave Device Failure''),
     (5, ''Acknowledge''),
     (6, ''Slave Device Busy''),
     (8, ''Memory Parity Error''),
     (10, ''Gateway Path Unavailable''),
     (11, ''Gateway Target Failed'')]"

definition unknown_exception :: "int \<Rightarrow> string" where
  "unknown_exception c = ''Unknown Exception ('' @ str_int c @ '')''"

definition exception_name :: "ModbusResponse \<Rightarrow> string" where
  "exception_name r =
     (case exception_code r of
        None \<Rightarrow> ''Normal Response''
      | Some c \<Rightarrow> (case map_of exceptions_table c of
                     Some name \<Rightarrow> name
                   | None \<Rightarrow> unknown_exception c))"

section \<open>The master: statistics, completeness predicate, parsing\<close>

record statistics =
  requests_sent :: int
  responses_received :: int
  timeouts :: int
  crc_errors :: int
  exceptions :: int

text \<open>
  What one exchange on the serial line produces for a request frame, as \<open>\_send\_frame\<close>
  sees it: the write (or the buffer reset or flush before it) raises, the read raises, or
  \<open>\_read\_response\<close> returns the bytes collected before its deadline (none collected is
  Python's \<open>None\<close>).
\<close>

datatype exchange = WriteError | ReadError | Received "byte list"

type_synonym serial_port = "byte list \<Rightarrow> exchange"

record master =
  is_connected :: bool
  serial_connection :: "serial_port option"
  stats :: statistics

definition stats_zero :: statistics where
  "stats_zero = \<lparr>requests_sent = 0, responses_received = 0, timeouts = 0,
     crc_errors = 0, exceptions = 0\<rparr>"

definition is_complete_frame :: "byte list \<Rightarrow> bool" where
  "is_complete_frame buffer =
     (if length buffer < 5 then False
      else if buffer ! 1 AND 0x80 \<noteq> 0 then length buffer \<ge> 5
      else let function_code = buffer ! 1 in
        if function_code \<in> {0x03, 0x04} \<and> length buffer \<ge> 3
          then length buffer \<ge> 5 + unat (buffer ! 2)
        else if function_code \<in> {0x01, 0x02} \<and> length buffer \<ge> 3
          then length buffer \<ge> 5 + unat (buffer ! 2)
        else if function_code \<in> {0x05, 0x06, 0x0F, 0x10}
          then length buffer \<ge> 8
        else length buffer \<ge> 5)"

definition parse_response :: "master \<Rightarrow> byte list \<Rightarrow> ModbusResponse \<times> master" where
  "parse_response m dat =
     (if length dat < 5 then (response_default\<lparr>timeout := True\<rparr>, m)
      else
        let sid = uint (dat ! 0);
            fc = uint (dat ! 1);
            payload = take (length dat - 2) dat;
            received_crc = unpack_le16 (dat ! (length dat - 2)) (dat ! (length dat - 1));
            calculated_crc = calculate_crc payload
        in if received_crc \<noteq> calculated_crc then
             (response_default\<lparr>slave_id := Some sid, function_code := Some fc,
                crc_error := True, raw_frame := Some dat\<rparr>,
              m\<lparr>stats := (stats m)\<lparr>crc_errors := crc_errors (stats m) + 1\<rparr>\<rparr>)
           else
             let m1 = m\<lparr>stats := (stats m)\<lparr>responses_received := responses_received (stats m) + 1\<rparr>\<rparr>
             in if fc AND 0x80 \<noteq> 0 then
                  (response_default\<lparr>slave_id := Some sid, function_code := Some (fc AND 0x7F),
                     exception_code := (if length dat > 2 then Some (uint (dat ! 2)) else None),
                     raw_frame := Some dat\<rparr>,
                   m1\<lparr>stats := (stats m1)\<lparr>exceptions := exceptions (stats m1) + 1\<rparr>\<rparr>)
                else
                  (response_default\<lparr>slave_id := Some sid, function_code := Some fc,
                     data := Some (if length dat > 4 then drop 2 (take (length dat - 2) dat) else []),
                     raw_frame := Some dat\<rparr>,
                   m1))"


section \<open>Requests, the send/receive cycle and register reads\<close>

datatype FunctionCode =
    READ_COILS | READ_DISCRETE_INPUTS | READ_HOLDING_REGISTERS | READ_INPUT_REGISTERS
  | WRITE_SINGLE_COIL | WRITE_SINGLE_REGISTER | WRITE_MULTIPLE_COILS | WRITE_MULTIPLE_REGISTERS

fun fc_value :: "FunctionCode \<Rightarrow> int" where
  "fc_value READ_COILS = 0x01"
| "fc_value READ_DISCRETE_INPUTS = 0x02"
| "fc_value READ_HOLDING_REGISTERS = 0x03"
| "fc_value READ_INPUT_REGISTERS = 0x04"
| "fc_value WRITE_SINGLE_COIL = 0x05"
| "fc_value WRITE_SINGLE_REGISTER = 0x06"
| "fc_value WRITE_MULTIPLE_COILS = 0x0F"
| "fc_value WRITE_MULTIPLE_REGISTERS = 0x10"

text \<open>
  The request built at the head of \<open>\_read\_registers\<close> and of \<open>probe\_device\<close>:
  \<open>struct.pack('BB', slave, function) + struct.pack('>HH', address, count)\<close> followed by
  the CRC packed with \<open>'<H'\<close>. A value that does not fit its field raises.
\<close>

definition build_read_request :: "int \<Rightarrow> int \<Rightarrow> int \<Rightarrow> int \<Rightarrow> py_error + byte list" where
  "build_read_request sid fc start_address count =
     bind_err (pack_be16 start_address) (\<lambda>a.
     bind_err (pack_be16 count) (\<lambda>c.
     bind_err (pack_u8 sid) (\<lambda>s.
     bind_err (pack_u8 fc) (\<lambda>f.
       let frame = s @ f @ a @ c in
       bind_err (pack_le16 (calculate_crc frame)) (\<lambda>t. Inr (frame @ t))))))"

definition timeout_response :: ModbusResponse where
  "timeout_response = response_default\<lparr>timeout := True\<rparr>"

definition count_timeout :: "master \<Rightarrow> master" where
  "count_timeout m = m\<lparr>stats := (stats m)\<lparr>timeouts := timeouts (stats m) + 1\<rparr>\<rparr>"

definition count_request :: "master \<Rightarrow> master" where
  "count_request m = m\<lparr>stats := (stats m)\<lparr>requests_sent := requests_sent (stats m) + 1\<rparr>\<rparr>"

text \<open>
  \<open>\_send\_frame\<close>: without a connection the answer is a timeout and nothing is counted;
  an exception of the port is caught and counted as a timeout (the request is counted only
  when the write went through); an empty read is a timeout; anything else is parsed.
\<close>

definition send_frame :: "master \<Rightarrow> byte list \<Rightarrow> ModbusResponse \<times> master" where
  "send_frame m frame =
     (case serial_connection m of
        None \<Rightarrow> (timeout_response, m)
      | Some port \<Rightarrow>
          if \<not> is_connected m then (timeout_response, m)
          else (case port frame of
                  WriteError \<Rightarrow> (timeout_response, count_timeout m)
                | ReadError \<Rightarrow> (timeout_response, count_timeout (count_request m))
                | Received response_data \<Rightarrow>
                    if response_data = []
                    then (timeout_response, count_timeout (count_request m))
                    else parse_response (count_request m) response_data))"

text \<open>The decoding loop of \<open>\_read\_registers\<close>: two bytes at a time, big endian; a
  trailing single byte is skipped.\<close>

fun registers_of :: "byte list \<Rightarrow> int list" where
  "registers_of (hi # lo # rest) = unpack_be16 hi lo # registers_of rest"
| "registers_of [b] = []"
| "registers_of [] = []"

definition read_registers ::
  "master \<Rightarrow> int \<Rightarrow> int \<Rightarrow> int \<Rightarrow> FunctionCode
     \<Rightarrow> py_error + ((int list option \<times> string option) \<times> master)" where
  "read_registers m sid start_address count fc =
     bind_err (build_read_request sid (fc_value fc) start_address count) (\<lambda>frame.
       let (response, m') = send_frame m frame in
       Inr (if timeout response then (None, Some ''Request timeout'')
            else if crc_error response then (None, Some ''CRC error in response'')
            else if is_exception response
              then (None, Some (''Modbus exception: '' @ exception_name response))
            else (case data response of
                    None \<Rightarrow> (None, Some ''Invalid response data'')
                  | Some d \<Rightarrow>
                      if d = [] then (None, Some ''Invalid response data'')
                      else let byte_count = unat (d ! 0);
                               register_data = take byte_count (drop 1 d)
                           in if length register_data \<noteq> byte_count
                              then (None, Some ''Incomplete register data'')
                              else (Some (registers_of register_data), None)),
            m'))"

definition read_holding_registers ::
  "master \<Rightarrow> int \<Rightarrow> int \<Rightarrow> int \<Rightarrow> py_error + ((int list option \<times> string option) \<times> master)" where
  "read_holding_registers m sid start_address count =
     read_registers m sid start_address count READ_HOLDING_REGISTERS"

definition read_input_registers ::
  "master \<Rightarrow> int \<Rightarrow> int \<Rightarrow> int \<Rightarrow> py_error + ((int list option \<times> string option) \<times> master)" where
  "read_input_registers m sid start_address count =
     read_registers m sid start_address count READ_INPUT_REGISTERS"

section \<open>Probing and scanning\<close>

definition probe_device :: "master \<Rightarrow> int \<Rightarrow> int \<Rightarrow> py_error + (ModbusResponse \<times> master)" where
  "probe_device m sid test_address =
     bind_err (build_read_request sid (fc_value READ_HOLDING_REGISTERS) test_address 1)
       (\<lambda>frame. Inr (send_frame m frame))"

text \<open>
  The loop of \<open>scan\_slaves\<close> over the slave ids of the range, carrying \<open>found\_devices\<close>
  and \<open>found\_ids\<close>. The progress callback and the pause between probes act outside the
  master and are not part of the state.
\<close>

fun scan_loop ::
  "master \<Rightarrow> int list \<Rightarrow> (int option \<times> ModbusResponse) list \<Rightarrow> int option set
     \<Rightarrow> py_error + ((int option \<times> ModbusResponse) list \<times> master)" where
  "scan_loop m [] found_devices found_ids = Inr (found_devices, m)"
| "scan_loop m (sid # rest) found_devices found_ids =
     (case probe_device m sid 65535 of
        Inl e \<Rightarrow> Inl e
      | Inr (response, m') \<Rightarrow>
          if is_valid response \<and> slave_id response \<notin> found_ids
          then scan_loop m' rest (found_devices @ [(slave_id response, response)])
                 (insert (slave_id response) found_ids)
          else scan_loop m' rest found_devices found_ids)"

definition scan_slaves ::
  "master \<Rightarrow> int list \<Rightarrow> py_error + ((int option \<times> ModbusResponse) list \<times> master)" where
  "scan_slaves m slave_range = scan_loop m slave_range [] {}"

section \<open>Python floats\<close>

text \<open>
  A Python float is an IEEE 754 binary64 value: a finite one is denoted by the rational
  number it represents (the two zeros, which compare equal, are both \<open>Finite 0\<close>), the
  others are the infinities and NaN. Python's integers compare and combine with floats by
  value; where the source stores the integer \<open>0\<close> in a field that later holds floats, the
  model stores \<open>Finite 0\<close>.
\<close>

datatype pyfloat = Finite rat | PosInf | NegInf | NaN

definition pow2 :: "int \<Rightarrow> rat" where
  "pow2 k = (if 0 \<le> k then 2 ^ nat k else 1 / 2 ^ nat (- k))"

text \<open>Rounding to the nearest integer, ties to the even one.\<close>

definition round_half_even :: "rat \<Rightarrow> int" where
  "round_half_even q =
     (let f = \<lfloor>q\<rfloor>; d = q - of_int f
      in if d < 1 / 2 then f else if 1 / 2 < d then f + 1 else if even f then f else f + 1)"

text \<open>The integer part of the binary logarithm of a positive rational.\<close>

definition floor_log2 :: "rat \<Rightarrow> int" where
  "floor_log2 q =
     (let (a, b) = quotient_of q; k = bitlen a - bitlen b
      in if pow2 k \<le> q then k else k - 1)"

text \<open>
  The binary64 value nearest to a rational (round to nearest, ties to even): 53 bits of
  mantissa \<open>m\<close> at exponent \<open>e\<close>, the exponent not below that of the subnormals; a result
  of \<open>2 ^ 1024\<close> or more, that is a mantissa of more than \<open>1024 - e\<close> bits, is an infinity.
\<close>

definition binary64_round :: "rat \<Rightarrow> pyfloat" where
  "binary64_round q =
     (if q = 0 then Finite 0
      else let a = \<bar>q\<bar>;
               e = max (floor_log2 a - 52) (- 1074);
               m = round_half_even (a / pow2 e)
           in if 1025 \<le> bitlen m + e then (if 0 < q then PosInf else NegInf)
              else Finite (if 0 < q then of_int m * pow2 e else - (of_int m * pow2 e)))"

text \<open>\<open>float(n)\<close> and the true division \<open>a / b\<close> of two integers: both are correctly
  rounded and raise when the result is out of range.\<close>

definition float_of_int :: "int \<Rightarrow> py_error + pyfloat" where
  "float_of_int n =
     (case binary64_round (of_int n) of Finite x \<Rightarrow> Inr (Finite x) | _ \<Rightarrow> Inl OverflowError)"

definition int_truediv :: "int \<Rightarrow> int \<Rightarrow> py_error + pyfloat" where
  "int_truediv a b =
     (if b = 0 then Inl ZeroDivisionError
      else case binary64_round (of_int a / of_int b) of
             Finite x \<Rightarrow> Inr (Finite x)
           | _ \<Rightarrow> Inl OverflowError)"

text \<open>Float arithmetic: the exact result rounded; overflow gives an infinity, not an
  exception; only division by zero raises.\<close>

fun float_add :: "pyfloat \<Rightarrow> pyfloat \<Rightarrow> pyfloat" where
  "float_add (Finite a) (Finite b) = binary64_round (a + b)"
| "float_add NaN y = NaN"
| "float_add x NaN = NaN"
| "float_add PosInf NegInf = NaN"
| "float_add NegInf PosInf = NaN"
| "float_add PosInf y = PosInf"
| "float_add NegInf y = NegInf"
| "float_add (Finite a) y = y"

definition inf_of_sign :: "bool \<Rightarrow> pyfloat" where
  "inf_of_sign positive = (if positive then PosInf else NegInf)"

fun float_mul :: "pyfloat \<Rightarrow> pyfloat \<Rightarrow> pyfloat" where
  "float_mul (Finite a) (Finite b) = binary64_round (a * b)"
| "float_mul NaN y = NaN"
| "float_mul x NaN = NaN"
| "float_mul PosInf (Finite b) = (if b = 0 then NaN else inf_of_sign (0 < b))"
| "float_mul NegInf (Finite b) = (if b = 0 then NaN else inf_of_sign (b < 0))"
| "float_mul (Finite a) PosInf = (if a = 0 then NaN else inf_of_sign (0 < a))"
| "float_mul (Finite a) NegInf = (if a = 0 then NaN else inf_of_sign (a < 0))"
| "float_mul PosInf PosInf = PosInf"
| "float_mul NegInf NegInf = PosInf"
| "float_mul PosInf NegInf = NegInf"
| "float_mul NegInf PosInf = NegInf"

fun float_div :: "pyfloat \<Rightarrow> pyfloat \<Rightarrow> py_error + pyfloat" where
  "float_div x (Finite b) =
     (if b = 0 then Inl ZeroDivisionError
      else Inr (case x of
                  Finite a \<Rightarrow> binary64_round (a / b)
                | PosInf \<Rightarrow> inf_of_sign (0 < b)
                | NegInf \<Rightarrow> inf_of_sign (b < 0)
                | NaN \<Rightarrow> NaN))"
| "float_div x NaN = Inr NaN"
| "float_div (Finite a) y = Inr (Finite 0)"
| "float_div x y = Inr NaN"

fun float_lt :: "pyfloat \<Rightarrow> pyfloat \<Rightarrow> bool" where
  "float_lt (Finite a) (Finite b) = (a < b)"
| "float_lt NaN y = False"
| "float_lt x NaN = False"
| "float_lt x NegInf = False"
| "float_lt PosInf y = False"
| "float_lt NegInf y = True"
| "float_lt (Finite a) PosInf = True"

fun float_le :: "pyfloat \<Rightarrow> pyfloat \<Rightarrow> bool" where
  "float_le (Finite a) (Finite b) = (a \<le> b)"
| "float_le NaN y = False"
| "float_le x NaN = False"
| "float_le NegInf y = True"
| "float_le x PosInf = True"
| "float_le x NegInf = False"
| "float_le PosInf y = False"

text \<open>The builtins \<open>min(a, b)\<close> and \<open>max(a, b)\<close>: the first argument unless the second is
  strictly smaller (greater).\<close>

definition py_min :: "pyfloat \<Rightarrow> pyfloat \<Rightarrow> pyfloat" where
  "py_min a b = (if float_lt b a then b else a)"

definition py_max :: "pyfloat \<Rightarrow> pyfloat \<Rightarrow> pyfloat" where
  "py_max a b = (if float_lt a b then b else a)"

text \<open>The builtin \<open>sum\<close> on floats, adding from the left onto the integer 0, each partial
  sum rounded (CPython before 3.12; later versions compensate the partial sums, which no
  property below depends on).\<close>

definition py_sum :: "pyfloat list \<Rightarrow> pyfloat" where
  "py_sum xs = foldl float_add (Finite 0) xs"

text \<open>A float divided by the length of a container.\<close>

definition float_div_len :: "pyfloat \<Rightarrow> nat \<Rightarrow> py_error + pyfloat" where
  "float_div_len x n = bind_err (float_of_int (int n)) (float_div x)"

section \<open>Statistics of the master\<close>

record statistics_report = statistics +
  success_rate :: pyfloat
  error_rate :: pyfloat

definition rate_percent :: "int \<Rightarrow> int \<Rightarrow> py_error + pyfloat" where
  "rate_percent n total_requests =
     (if total_requests > 0
      then bind_err (int_truediv n total_requests) (\<lambda>q. Inr (float_mul q (Finite 100)))
      else Inr (Finite 0))"

definition get_statistics :: "master \<Rightarrow> py_error + statistics_report" where
  "get_statistics m =
     (let total_requests = requests_sent (stats m) in
      bind_err (rate_percent (responses_received (stats m)) total_requests) (\<lambda>sr.
      bind_err (rate_percent (timeouts (stats m) + crc_errors (stats m)) total_requests) (\<lambda>er.
        Inr \<lparr>requests_sent = requests_sent (stats m),
             responses_received = responses_received (stats m),
             timeouts = timeouts (stats m),
             crc_errors = crc_errors (stats m),
             exceptions = exceptions (stats m),
             success_rate = sr, error_rate = er\<rparr>)))"

definition reset_statistics :: "master \<Rightarrow> master" where
  "reset_statistics m = m\<lparr>stats := stats_zero\<rparr>"

section \<open>The passive monitor\<close>

text \<open>
  A \<open>datetime\<close> is a count of microseconds; the difference of two is a \<open>timedelta\<close>,
  whose \<open>total_seconds()\<close> is the correctly rounded quotient of its microseconds by
  \<open>10 ** 6\<close>. (A timedelta spans less than \<open>10 ^ 20\<close> microseconds, far inside the range
  of binary64: the infinities of \<open>binary64_round\<close> are out of reach here.)
\<close>

type_synonym datetime = int

definition total_seconds :: "int \<Rightarrow> pyfloat" where
  "total_seconds microseconds = binary64_round (of_int microseconds / 1000000)"

text \<open>\<open>deque(maxlen=100).append\<close>: a full deque drops its oldest element.\<close>

definition deque_append :: "'a list \<Rightarrow> 'a \<Rightarrow> 'a list" where
  "deque_append q x = (if length q < 100 then q @ [x] else tl q @ [x])"

text \<open>Reading a \<open>defaultdict\<close>: a missing key gets the default.\<close>

definition dd_get :: "('k \<rightharpoonup> 'v) \<Rightarrow> 'k \<Rightarrow> 'v \<Rightarrow> 'v" where
  "dd_get d k dflt = (case d k of None \<Rightarrow> dflt | Some v \<Rightarrow> v)"

text \<open>\<open>bytes.hex()\<close>.\<close>

definition hex_digit :: "nat \<Rightarrow> char" where
  "hex_digit n = ''0123456789abcdef'' ! n"

definition hex_bytes :: "byte list \<Rightarrow> string" where
  "hex_bytes bs = concat (map (\<lambda>b. [hex_digit (unat b div 16), hex_digit (unat b mod 16)]) bs)"

record slave_stat =
  count :: int
  last_seen :: "datetime option"
  intervals :: "pyfloat list"
  avg_rate :: pyfloat
  min_interval :: pyfloat
  max_interval :: pyfloat

definition slave_stat_default :: slave_stat where
  "slave_stat_default = \<lparr>count = 0, last_seen = None, intervals = [], avg_rate = Finite 0,
     min_interval = PosInf, max_interval = Finite 0\<rparr>"

text \<open>A closed wave (the keys \<open>start\<close>, \<open>end\<close>, \<open>duration\<close>, \<open>msg_count\<close>).\<close>

record wave_info =
  wave_start :: datetime
  wave_end :: datetime
  duration :: pyfloat
  msg_count :: int

record wave_stat =
  waves :: "wave_info list"
  current_wave_start :: "datetime option"
  current_wave_msgs :: int
  last_msg_time :: "datetime option"
  wave_intervals :: "pyfloat list"
  avg_wave_interval :: pyfloat
  avg_msgs_per_wave :: pyfloat
  min_wave_interval :: pyfloat
  max_wave_interval :: pyfloat

definition wave_stat_default :: wave_stat where
  "wave_stat_default = \<lparr>waves = [], current_wave_start = None, current_wave_msgs = 0,
     last_msg_time = None, wave_intervals = [], avg_wave_interval = Finite 0,
     avg_msgs_per_wave = Finite 0, min_wave_interval = PosInf, max_wave_interval = Finite 0\<rparr>"

record protocols =
  modbus_rtu :: bool
  modbus_ascii :: bool
  custom :: bool

text \<open>An entry of the display queue.\<close>

record event =
  ev_timestamp :: datetime
  ev_slave_id :: int
  ev_frame :: string
  ev_length :: nat
  ev_interval :: pyfloat

text \<open>\<open>RS485PassiveMonitor\<close> extends \<open>ModbusMaster\<close>.\<close>

record monitor = master +
  slave_ids :: "int set"
  wave_gap_threshold :: pyfloat
  monitoring :: bool
  data_queue :: "event list"
  slave_stats :: "int \<rightharpoonup> slave_stat"
  wave_stats :: "int \<rightharpoonup> wave_stat"
  detected_protocols :: protocols

text \<open>The monitor as its constructor leaves it, for the given slave ids and threshold.\<close>

definition monitor_init :: "int list \<Rightarrow> pyfloat \<Rightarrow> monitor" where
  "monitor_init ids threshold =
     \<lparr>is_connected = False, serial_connection = None, stats = stats_zero,
      slave_ids = set ids, wave_gap_threshold = threshold, monitoring = False,
      data_queue = [], slave_stats = Map.empty, wave_stats = Map.empty,
      detected_protocols = \<lparr>modbus_rtu = False, modbus_ascii = False, custom = False\<rparr>\<rparr>"

definition valid_functions :: "int list" where
  "valid_functions = [0x01, 0x02, 0x03, 0x04, 0x05, 0x06, 0x0F, 0x10]"

definition exception_functions :: "int list" where
  "exception_functions = map (\<lambda>f. f OR 0x80) valid_functions"

definition analyze_frame_validity :: "monitor \<Rightarrow> byte list \<Rightarrow> bool \<times> monitor" where
  "analyze_frame_validity mon frame =
     (if length frame < 4 then (False, mon)
      else let sid = uint (frame ! 0); fc = uint (frame ! 1) in
        if \<not> (1 \<le> sid \<and> sid \<le> 247) then (False, mon)
        else if (fc \<in> set valid_functions \<or> fc \<in> set exception_functions)
                \<and> length frame \<ge> 5
                \<and> unpack_le16 (frame ! (length frame - 2)) (frame ! (length frame - 1))
                    = calculate_crc (take (length frame - 2) frame)
          then (True, mon\<lparr>detected_protocols := (detected_protocols mon)\<lparr>modbus_rtu := True\<rparr>\<rparr>)
        else if uint (frame ! 0) = 58
          then (True, mon\<lparr>detected_protocols := (detected_protocols mon)\<lparr>modbus_ascii := True\<rparr>\<rparr>)
        else if \<exists>b \<in> set frame. 1 \<le> uint b \<and> uint b \<le> 247
          then (True, mon\<lparr>detected_protocols := (detected_protocols mon)\<lparr>custom := True\<rparr>\<rparr>)
        else (False, mon))"

text \<open>
  The body of \<open>\_update\_wave\_stats\<close> under \<open>if wave_stats['current_wave_start']\<close>, in its
  three steps. First the open wave, started at \<open>cws\<close> and last heard at \<open>last_msg\<close>, goes
  into the history.
\<close>

definition append_closed_wave :: "wave_stat \<Rightarrow> datetime \<Rightarrow> datetime \<Rightarrow> wave_stat" where
  "append_closed_wave ws cws last_msg =
     (let wave_duration = total_seconds (last_msg - cws);
          info = \<lparr>wave_start = cws, wave_end = last_msg, duration = wave_duration,
                  msg_count = current_wave_msgs ws\<rparr>
      in ws\<lparr>waves := deque_append (waves ws) info\<rparr>)"

text \<open>Then, if the history holds a wave before it, the interval between the starts of
  the two is recorded.\<close>

definition record_wave_interval :: "wave_stat \<Rightarrow> datetime \<Rightarrow> wave_stat" where
  "record_wave_interval ws cws =
     (if length (waves ws) > 1
      then let prev_wave = waves ws ! (length (waves ws) - 2);
               wave_interval = total_seconds (cws - wave_start prev_wave)
           in ws\<lparr>wave_intervals := deque_append (wave_intervals ws) wave_interval,
                 min_wave_interval := py_min (min_wave_interval ws) wave_interval,
                 max_wave_interval := py_max (max_wave_interval ws) wave_interval\<rparr>
      else ws)"

text \<open>Last the averages are recomputed. The total of the message counts divided by the
  number of waves is a division of integers, which raises when its result is out of
  range.\<close>

definition update_wave_averages :: "wave_stat \<Rightarrow> py_error + wave_stat" where
  "update_wave_averages ws =
     bind_err (if wave_intervals ws \<noteq> []
               then bind_err (float_div_len (py_sum (wave_intervals ws))
                                (length (wave_intervals ws)))
                      (\<lambda>avg. Inr (ws\<lparr>avg_wave_interval := avg\<rparr>))
               else Inr ws) (\<lambda>ws1.
       if waves ws1 \<noteq> []
       then bind_err (int_truediv (sum_list (map msg_count (waves ws1)))
                        (int (length (waves ws1))))
              (\<lambda>avg. Inr (ws1\<lparr>avg_msgs_per_wave := avg\<rparr>))
       else Inr ws1)"

definition close_wave :: "wave_stat \<Rightarrow> datetime \<Rightarrow> datetime \<Rightarrow> py_error + wave_stat" where
  "close_wave ws cws last_msg =
     update_wave_averages (record_wave_interval (append_closed_wave ws cws last_msg) cws)"

text \<open>\<open>\_update\_wave\_stats\<close> on the entry of one slave.\<close>

definition wave_step :: "pyfloat \<Rightarrow> wave_stat \<Rightarrow> datetime \<Rightarrow> py_error + wave_stat" where
  "wave_step threshold ws timestamp =
     bind_err
       (case last_msg_time ws of
          Some last_msg \<Rightarrow>
            let gap = total_seconds (timestamp - last_msg) in
            if float_lt threshold gap
            then bind_err (case current_wave_start ws of
                             Some cws \<Rightarrow> close_wave ws cws last_msg
                           | None \<Rightarrow> Inr ws)
                   (\<lambda>ws1. Inr (ws1\<lparr>current_wave_start := Some timestamp,
                                    current_wave_msgs := 1\<rparr>))
            else Inr (ws\<lparr>current_wave_msgs := current_wave_msgs ws + 1\<rparr>)
        | None \<Rightarrow> Inr (ws\<lparr>current_wave_start := Some timestamp, current_wave_msgs := 1\<rparr>))
       (\<lambda>ws'. Inr (ws'\<lparr>last_msg_time := Some timestamp\<rparr>))"

definition update_wave_stats :: "monitor \<Rightarrow> int \<Rightarrow> datetime \<Rightarrow> py_error + monitor" where
  "update_wave_stats mon sid timestamp =
     bind_err (wave_step (wave_gap_threshold mon)
                 (dd_get (wave_stats mon) sid wave_stat_default) timestamp)
       (\<lambda>ws'. Inr (mon\<lparr>wave_stats := (wave_stats mon)(sid \<mapsto> ws')\<rparr>))"

text \<open>The float literal \<open>0.010\<close>.\<close>

definition min_poll_interval :: pyfloat where
  "min_poll_interval = binary64_round (1 / 100)"

text \<open>
  The polling-statistics part of \<open>\_process\_frame\<close> on the entry of one slave: the new
  entry and the interval to display, if the frame counts as a poll.
\<close>

definition poll_step :: "slave_stat \<Rightarrow> datetime \<Rightarrow> py_error + (slave_stat \<times> pyfloat option)" where
  "poll_step st timestamp =
     (case last_seen st of
        Some seen \<Rightarrow>
          let interval = total_seconds (timestamp - seen) in
          if float_le min_poll_interval interval
          then let st1 = st\<lparr>intervals := deque_append (intervals st) interval,
                            min_interval := py_min (min_interval st) interval,
                            max_interval := py_max (max_interval st) interval\<rparr>
               in bind_err (if intervals st1 \<noteq> []
                            then bind_err (float_div_len (py_sum (intervals st1))
                                             (length (intervals st1)))
                                   (\<lambda>avg. Inr (st1\<lparr>avg_rate := avg\<rparr>))
                            else Inr st1) (\<lambda>st2.
                  Inr (st2\<lparr>count := count st2 + 1, last_seen := Some timestamp\<rparr>,
                       Some interval))
          else Inr (st, None)
      | None \<Rightarrow> Inr (st\<lparr>count := count st + 1, last_seen := Some timestamp\<rparr>,
                     Some (Finite 0)))"

text \<open>
  \<open>\_process\_frame\<close>, with the time \<open>datetime.now()\<close> of the call as an argument. An
  exception escapes to the caller; the model does not describe the partly updated
  monitor it leaves behind.
\<close>

definition process_frame :: "monitor \<Rightarrow> byte list \<Rightarrow> datetime \<Rightarrow> py_error + monitor" where
  "process_frame mon frame now =
     (let (ok, mon1) = analyze_frame_validity mon frame in
      if \<not> ok then Inr mon1
      else let timestamp = now; sid = uint (frame ! 0) in
        if slave_ids mon1 = {} \<or> sid \<in> slave_ids mon1
        then let mon2 = (if sid \<notin> slave_ids mon1
                         then mon1\<lparr>slave_ids := insert sid (slave_ids mon1)\<rparr> else mon1)
             in bind_err (update_wave_stats mon2 sid timestamp) (\<lambda>mon3.
                bind_err (poll_step (dd_get (slave_stats mon3) sid slave_stat_default) timestamp)
                  (\<lambda>(st, shown).
                     let mon4 = mon3\<lparr>slave_stats := (slave_stats mon3)(sid \<mapsto> st)\<rparr>
                     in Inr (case shown of
                               None \<Rightarrow> mon4
                             | Some interval \<Rightarrow>
                                 mon4\<lparr>data_queue := data_queue mon4 @
                                   [\<lparr>ev_timestamp = timestamp, ev_slave_id = sid,
                                     ev_frame = hex_bytes frame, ev_length = length frame,
                                     ev_interval = interval\<rparr>]\<rparr>)))
        else Inr mon1)"

datatype status = Active | Slowing | Idle

record rate_entry =
  rate_hz :: pyfloat
  period_ms :: pyfloat
  message_count :: int
  rate_status :: status
  time_since_last :: pyfloat
  open_wave_msgs :: int
  total_waves :: nat
  mean_msgs_per_wave :: pyfloat

text \<open>The body of the loop of \<open>get\_current\_rates\<close> for one slave id, at the time
  \<open>current_time\<close> of the call: the time since the last message, the status it is
  classified as, and the entry.\<close>

definition time_since :: "slave_stat \<Rightarrow> datetime \<Rightarrow> pyfloat" where
  "time_since st current_time =
     (case last_seen st of
        Some seen \<Rightarrow> total_seconds (current_time - seen)
      | None \<Rightarrow> PosInf)"

definition classify :: "pyfloat \<Rightarrow> status" where
  "classify since =
     (if float_lt since (Finite 1) then Active
      else if float_lt since (Finite 3) then Slowing else Idle)"

definition slave_rate :: "monitor \<Rightarrow> datetime \<Rightarrow> int \<Rightarrow> py_error + rate_entry" where
  "slave_rate mon current_time sid =
     (let st = dd_get (slave_stats mon) sid slave_stat_default;
          ws = dd_get (wave_stats mon) sid wave_stat_default;
          since = time_since st current_time;
          state = classify since;
          recent_intervals = filter (\<lambda>i. float_lt (Finite 0) i) (intervals st)
      in bind_err (if recent_intervals \<noteq> []
                   then bind_err (float_div_len (py_sum recent_intervals) (length recent_intervals))
                          (\<lambda>mean. float_div (Finite 1) mean)
                   else Inr (Finite 0)) (\<lambda>hz.
         bind_err (if recent_intervals \<noteq> []
                   then bind_err (float_div_len (py_sum recent_intervals) (length recent_intervals))
                          (\<lambda>mean. Inr (float_mul mean (Finite 1000)))
                   else Inr (Finite 0)) (\<lambda>ms.
           Inr \<lparr>rate_hz = hz, period_ms = ms, message_count = count st, rate_status = state,
                time_since_last = since, open_wave_msgs = current_wave_msgs ws,
                total_waves = length (waves ws), mean_msgs_per_wave = avg_msgs_per_wave ws\<rparr>)))"

text \<open>
  \<open>get\_current\_rates\<close>: the loop over the known slave ids, which also leaves a default
  entry in both dictionaries for an id that had none. The ids are taken in increasing
  order; the result does not depend on the order.
\<close>

fun rates_loop ::
  "monitor \<Rightarrow> datetime \<Rightarrow> int list \<Rightarrow> (int \<rightharpoonup> rate_entry)
     \<Rightarrow> py_error + ((int \<rightharpoonup> rate_entry) \<times> monitor)" where
  "rates_loop mon current_time [] rates = Inr (rates, mon)"
| "rates_loop mon current_time (sid # rest) rates =
     (let mon1 = mon\<lparr>slave_stats := (slave_stats mon)
                        (sid \<mapsto> dd_get (slave_stats mon) sid slave_stat_default),
                      wave_stats := (wave_stats mon)
                        (sid \<mapsto> dd_get (wave_stats mon) sid wave_stat_default)\<rparr>
      in bind_err (slave_rate mon1 current_time sid)
           (\<lambda>entry. rates_loop mon1 current_time rest (rates(sid \<mapsto> entry))))"

definition get_current_rates ::
  "monitor \<Rightarrow> datetime \<Rightarrow> py_error + ((int \<rightharpoonup> rate_entry) \<times> monitor)" where
  "get_current_rates mon current_time =
     rates_loop mon current_time (sorted_list_of_set (slave_ids mon)) Map.empty"

text \<open>The loop of \<open>\_monitor\_thread\<close> over a batch of captured frames, each processed at
  its own time.\<close>

fun process_frames :: "monitor \<Rightarrow> (byte list \<times> datetime) list \<Rightarrow> py_error + monitor" where
  "process_frames mon [] = Inr mon"
| "process_frames mon ((frame, now) # rest) =
     bind_err (process_frame mon frame now) (\<lambda>mon'. process_frames mon' rest)"

section \<open>Notions used to state the properties\<close>

text \<open>A master as \<open>\_\_init\_\_\<close> leaves it, and one connected to a port.\<close>

definition master_init :: master where
  "master_init = \<lparr>is_connected = False, serial_connection = None, stats = stats_zero\<rparr>"

definition master_on :: "serial_port \<Rightarrow> master" where
  "master_on port = \<lparr>is_connected = True, serial_connection = Some port, stats = stats_zero\<rparr>"

text \<open>A frame that \<open>\_parse\_response\<close> accepts: at least five bytes, and the trailer is the
  CRC of the bytes before it.\<close>

definition crc_valid :: "byte list \<Rightarrow> bool" where
  "crc_valid dat = (5 \<le> length dat \<and>
     unpack_le16 (dat ! (length dat - 2)) (dat ! (length dat - 1))
       = calculate_crc (take (length dat - 2) dat))"

text \<open>Flipping bit \<open>k\<close> of byte \<open>i\<close> of a frame.\<close>

definition flip_bit_at :: "byte list \<Rightarrow> nat \<Rightarrow> nat \<Rightarrow> byte list" where
  "flip_bit_at dat i k = dat[i := dat ! i XOR push_bit k 1]"

definition u16 :: "int \<Rightarrow> bool" where
  "u16 x = (0 \<le> x \<and> x < 65536)"

text \<open>The keys of the exception table.\<close>

definition named_codes :: "int set" where
  "named_codes = {1, 2, 3, 4, 5, 6, 8, 10, 11}"

text \<open>The response a probe of slave id \<open>sid\<close> gets (none when building the request raises).\<close>

definition probe_response :: "master \<Rightarrow> int \<Rightarrow> ModbusResponse option" where
  "probe_response m sid =
     (case probe_device m sid 65535 of Inl e \<Rightarrow> None | Inr (r, m') \<Rightarrow> Some r)"

text \<open>
  The round trip of the specification: the request for slave 17, address 100, count 2;
  a well-formed response carrying the registers 0x0001 and 0x0002; and a device that
  answers that request, and nothing else, with that response.
\<close>

definition request_17_100_2 :: "byte list" where
  "request_17_100_2 = [0x11, 0x03, 0x00, 0x64, 0x00, 0x02, 0x87, 0x44]"

definition response_1_2 :: "byte list" where
  "response_1_2 = [0x11, 0x03, 0x04, 0x00, 0x01, 0x00, 0x02, 0x3B, 0xF3]"

definition device_17 :: serial_port where
  "device_17 frame = (if frame = request_17_100_2 then Received response_1_2 else Received [])"

text \<open>Two masters on the same line: same connection flag, same port.\<close>

definition same_link :: "master \<Rightarrow> master \<Rightarrow> bool" where
  "same_link m m0 =
     (is_connected m = is_connected m0 \<and> serial_connection m = serial_connection m0)"

text \<open>
  \<open>first_valid m xs seen r\<close>: \<open>r\<close> is the response to the probe of some id of \<open>xs\<close>, it is
  valid, its reported slave id is not in \<open>seen\<close>, and no id probed before it got a valid
  response reporting the same slave id.
\<close>

definition first_valid :: "master \<Rightarrow> int list \<Rightarrow> int option set \<Rightarrow> ModbusResponse \<Rightarrow> bool" where
  "first_valid m0 xs seen r =
     (\<exists>pre s post. xs = pre @ s # post \<and> probe_response m0 s = Some r \<and> is_valid r
        \<and> slave_id r \<notin> seen
        \<and> (\<forall>s' \<in> set pre. \<forall>r'. probe_response m0 s' = Some r' \<and> is_valid r'
              \<longrightarrow> slave_id r' \<noteq> slave_id r))"

text \<open>
  A bus on which the devices addressed as 2 and as 4 both answer with an exception frame
  that reports slave id 2, with different exception codes; nothing else answers.
\<close>

definition misreporting_bus :: serial_port where
  "misreporting_bus frame =
     (case frame of
        [] \<Rightarrow> Received []
      | a # rest \<Rightarrow> if a = 2 then Received [0x02, 0x83, 0x02, 0x30, 0xF1]
                    else if a = 4 then Received [0x02, 0x83, 0x03, 0xF1, 0x31]
                    else Received [])"

definition reply_2 :: ModbusResponse where
  "reply_2 = \<lparr>slave_id = Some 2, function_code = Some 3, data = None, exception_code = Some 2,
      timeout = False, crc_error = False, raw_frame = Some [0x02, 0x83, 0x02, 0x30, 0xF1]\<rparr>"

definition reply_4 :: ModbusResponse where
  "reply_4 = \<lparr>slave_id = Some 2, function_code = Some 3, data = None, exception_code = Some 3,
      timeout = False, crc_error = False, raw_frame = Some [0x02, 0x83, 0x03, 0xF1, 0x31]\<rparr>"

text \<open>A master whose counters read 10 requests, 7 responses, 2 timeouts, 1 CRC error.\<close>

definition master_10_7_2_1 :: master where
  "master_10_7_2_1 = master_init\<lparr>stats := \<lparr>requests_sent = 10, responses_received = 7,
      timeouts = 2, crc_errors = 1, exceptions = 0\<rparr>\<rparr>"

text \<open>
  The bounds under which no division in the wave bookkeeping can leave the range of
  binary64: both deques within their capacity, and message counts below \<open>2 ^ 1000\<close>.
\<close>

definition wave_counts_bounded :: "wave_stat \<Rightarrow> bool" where
  "wave_counts_bounded ws =
     (length (waves ws) \<le> 100 \<and> length (wave_intervals ws) \<le> 100
      \<and> \<bar>current_wave_msgs ws\<bar> < 2 ^ 1000
      \<and> (\<forall>w \<in> set (waves ws). \<bar>msg_count w\<bar> < 2 ^ 1000))"

text \<open>A frame on the bus from slave 17 (an exception response with a valid CRC).\<close>

definition frame_17 :: "byte list" where
  "frame_17 = [0x11, 0x83, 0x02, 0xC1, 0x34]"

text \<open>
  A monitor with wave-gap threshold 0.5 s that has heard slave 17 three times in one wave
  (at 0, 0.1 and 0.2 s), and one that has heard it once, at time 0.
\<close>

definition open_wave_3 :: wave_stat where
  "open_wave_3 = wave_stat_default\<lparr>current_wave_start := Some 0, current_wave_msgs := 3,
     last_msg_time := Some 200000\<rparr>"

definition monitor_3 :: monitor where
  "monitor_3 = (monitor_init [] (Finite (1 / 2)))\<lparr>slave_ids := {17},
     wave_stats := [17 \<mapsto> open_wave_3]\<rparr>"

definition seen_once :: slave_stat where
  "seen_once = slave_stat_default\<lparr>count := 1, last_seen := Some 0\<rparr>"

definition open_wave_1 :: wave_stat where
  "open_wave_1 = wave_stat_default\<lparr>current_wave_start := Some 0, current_wave_msgs := 1,
     last_msg_time := Some 0\<rparr>"

definition monitor_1 :: monitor where
  "monitor_1 = (monitor_init [] (Finite (1 / 2)))\<lparr>slave_ids := {17},
     slave_stats := [17 \<mapsto> seen_once], wave_stats := [17 \<mapsto> open_wave_1]\<rparr>"

section \<open>Properties\<close>

lemma calculate_crc_range: "0 \<le> calculate_crc d \<and> calculate_crc d < 65536"
proof -
  have "calculate_crc d \<le> 0xFFFF"
    unfolding calculate_crc_def by (rule AND_upper2) simp
  moreover have "0 \<le> calculate_crc d"
    unfolding calculate_crc_def by simp
  ultimately show ?thesis by simp
qed

lemma crc_test_vector: "calculate_crc [0x01, 0x03, 0x00, 0x00, 0x00, 0x01] = 0x0A84"
  by code_simp

text \<open>
  Claim C2. The CRC16 of the bytes 01 03 00 00 00 01 is 0x0A84, so the little-endian
  trailer appended to that frame is 84 0A; and the CRC of every byte sequence lies in the
  16-bit range. (The function reads nothing but its argument, so it is deterministic.)
\<close>

theorem C2_crc_vector_and_range:
  "calculate_crc [0x01, 0x03, 0x00, 0x00, 0x00, 0x01] = 0x0A84
   \<and> pack_le16 (calculate_crc [0x01, 0x03, 0x00, 0x00, 0x00, 0x01]) = Inr [0x84, 0x0A]
   \<and> (\<forall>d. 0 \<le> calculate_crc d \<and> calculate_crc d < 65536)"
  using calculate_crc_range by (simp add: crc_test_vector pack_le16_def)


subsection \<open>The CRC detects every single-bit error\<close>

text \<open>
  One iteration of the inner loop is linear over XOR, keeps 16-bit values in range and
  sends no non-zero 16-bit value to zero; so a difference in the running value, once
  there, never disappears.
\<close>

lemma crc_shift_alt:
  "crc_shift x = (if odd x then drop_bit 1 x XOR 0xA001 else drop_bit 1 x)"
  by (simp add: crc_shift_def and_one_eq mod_2_eq_odd)

lemma crc_shift_xor: "crc_shift (x XOR y) = crc_shift x XOR crc_shift y"
  by (simp add: crc_shift_alt drop_bit_xor even_xor_iff ac_simps)

lemma crc_shift_u16: "u16 x \<Longrightarrow> u16 (crc_shift x)"
proof -
  assume a: "u16 x"
  then have d: "0 \<le> drop_bit 1 x" "drop_bit 1 x < 2 ^ 16"
    unfolding u16_def drop_bit_eq_div by simp_all arith
  have "drop_bit 1 x XOR 0xA001 < 2 ^ 16"
    by (rule XOR_upper) (use d in simp_all)
  with d show ?thesis by (simp add: crc_shift_alt u16_def)
qed

lemma crc_shift_zero: "u16 x \<Longrightarrow> crc_shift x = 0 \<Longrightarrow> x = 0"
proof -
  assume a: "u16 x" and z: "crc_shift x = 0"
  show ?thesis
  proof (cases "odd x")
    case True
    with z have "drop_bit 1 x XOR 0xA001 = 0" by (simp add: crc_shift_alt)
    then have "(drop_bit 1 x XOR 0xA001) XOR 0xA001 = 0 XOR (0xA001::int)" by (simp only:)
    then have "drop_bit 1 x = 0xA001" by (simp add: xor.assoc)
    then have "x div 2 = 40961" by (simp add: drop_bit_eq_div)
    with a show ?thesis unfolding u16_def by arith
  next
    case False
    with z have "x div 2 = 0" by (simp add: crc_shift_alt drop_bit_eq_div)
    with False a show ?thesis by (auto simp: u16_def elim: evenE)
  qed
qed

lemma crc_shift_pow_xor: "(crc_shift ^^ n) (x XOR y) = (crc_shift ^^ n) x XOR (crc_shift ^^ n) y"
  by (induction n) (simp_all add: crc_shift_xor)

lemma crc_shift_pow_u16: "u16 x \<Longrightarrow> u16 ((crc_shift ^^ n) x)"
  by (induction n) (simp_all add: crc_shift_u16)

lemma crc_shift_pow_zero: "u16 x \<Longrightarrow> (crc_shift ^^ n) x = 0 \<Longrightarrow> x = 0"
proof (induction n)
  case 0 then show ?case by simp
next
  case (Suc n)
  from Suc.prems have "crc_shift ((crc_shift ^^ n) x) = 0" by simp
  with crc_shift_pow_u16 [OF Suc.prems(1)] have "(crc_shift ^^ n) x = 0"
    by (rule crc_shift_zero)
  with Suc show ?case by simp
qed

lemma crc_byte_xor: "crc_byte (s XOR d) b = crc_byte s b XOR (crc_shift ^^ 8) d"
  by (simp add: crc_byte_def crc_shift_pow_xor ac_simps)

lemma foldl_crc_byte_xor:
  "u16 d \<Longrightarrow> d \<noteq> 0 \<Longrightarrow>
   \<exists>d'. u16 d' \<and> d' \<noteq> 0 \<and> foldl crc_byte (s XOR d) bs = foldl crc_byte s bs XOR d'"
proof (induction bs arbitrary: s d)
  case Nil
  then show ?case by auto
next
  case (Cons b bs)
  let ?d = "(crc_shift ^^ 8) d"
  have "u16 ?d" using Cons.prems(1) by (rule crc_shift_pow_u16)
  moreover have "?d \<noteq> 0" using crc_shift_pow_zero [OF Cons.prems(1)] Cons.prems(2) by blast
  ultimately obtain d' where "u16 d'" "d' \<noteq> 0"
      "foldl crc_byte (crc_byte s b XOR ?d) bs = foldl crc_byte (crc_byte s b) bs XOR d'"
    using Cons.IH by blast
  then show ?case by (auto simp: crc_byte_xor)
qed

lemma uint_flip: "k < 8 \<Longrightarrow> uint ((b::byte) XOR push_bit k 1) = uint b XOR 2 ^ k"
proof -
  assume "k < 8"
  then have "k \<in> {0, 1, 2, 3, 4, 5, 6, 7}" by auto
  then have "uint (push_bit k 1 :: byte) = 2 ^ k" by auto
  then show ?thesis by (simp only: uint_xor)
qed

lemma calculate_crc_flip:
  assumes "i < length bs" and "k < 8"
  shows "calculate_crc (bs[i := bs ! i XOR push_bit k 1]) \<noteq> calculate_crc bs"
proof -
  let ?pre = "take i bs" and ?post = "drop (Suc i) bs" and ?b = "bs ! i"
  let ?s = "foldl crc_byte 0xFFFF ?pre"
  let ?e = "(2::int) ^ k"
  have e16: "u16 ?e" and e0: "?e \<noteq> 0"
  proof -
    have "(2::int) ^ k < 2 ^ 16" using assms(2) by (intro power_strict_increasing) simp_all
    then show "u16 ?e" by (simp add: u16_def)
  qed simp
  have b1: "crc_byte ?s (?b XOR push_bit k 1) = crc_byte ?s ?b XOR (crc_shift ^^ 8) ?e"
    unfolding crc_byte_def uint_flip [OF assms(2)] by (simp add: crc_shift_pow_xor ac_simps)
  have "u16 ((crc_shift ^^ 8) ?e)" using e16 by (rule crc_shift_pow_u16)
  moreover have "(crc_shift ^^ 8) ?e \<noteq> 0" using crc_shift_pow_zero [OF e16] e0 by blast
  ultimately obtain d' where d': "u16 d'" "d' \<noteq> 0"
     "foldl crc_byte (crc_byte ?s ?b XOR (crc_shift ^^ 8) ?e) ?post
        = foldl crc_byte (crc_byte ?s ?b) ?post XOR d'"
    using foldl_crc_byte_xor by blast
  have l: "bs[i := ?b XOR push_bit k 1] = ?pre @ (?b XOR push_bit k 1) # ?post"
    using assms(1) by (rule upd_conv_take_nth_drop)
  have r: "bs = ?pre @ ?b # ?post"
    using assms(1) by (rule id_take_nth_drop)
  have f1: "foldl crc_byte 0xFFFF (bs[i := ?b XOR push_bit k 1])
          = foldl crc_byte (crc_byte ?s ?b) ?post XOR d'"
    by (subst l) (simp only: foldl_append foldl_Cons b1 d'(3))
  have f2: "foldl crc_byte 0xFFFF bs = foldl crc_byte (crc_byte ?s ?b) ?post"
    by (subst r) simp
  have m: "d' AND 0xFFFF = d'"
  proof -
    have "take_bit 16 d' = d'" using d'(1) by (simp add: take_bit_int_eq_self u16_def)
    then show ?thesis by (simp add: take_bit_eq_mask mask_eq_exp_minus_1)
  qed
  have "calculate_crc (bs[i := ?b XOR push_bit k 1]) = calculate_crc bs XOR d'"
    unfolding calculate_crc_def f1 f2 by (simp add: bit.conj_xor_distrib2 m)
  moreover have "calculate_crc bs XOR d' \<noteq> calculate_crc bs"
  proof
    assume "calculate_crc bs XOR d' = calculate_crc bs"
    then have "calculate_crc bs XOR (calculate_crc bs XOR d') = calculate_crc bs XOR calculate_crc bs"
      by simp
    then have "d' = 0" by (simp add: xor.assoc [symmetric])
    with d'(2) show False by simp
  qed
  ultimately show ?thesis by simp
qed

text \<open>
  Claim C1. Take any frame that parses successfully (at least five bytes, trailer equal to
  the CRC16 of the bytes before it). Flipping any one bit \<open>k\<close> of any byte \<open>i\<close> outside
  the two trailer bytes gives a frame whose parse has the CRC-error flag set, and so is not
  valid: no such flip is accepted.
\<close>

theorem C1_single_bit_flip_detected:
  assumes "crc_valid dat" and "i < length dat - 2" and "k < 8"
  shows "crc_error (fst (parse_response m (flip_bit_at dat i k)))
         \<and> \<not> is_valid (fst (parse_response m (flip_bit_at dat i k)))"
proof -
  let ?n = "length dat"
  let ?dat' = "dat[i := dat ! i XOR push_bit k 1]"
  from assms(1) have len: "5 \<le> ?n"
    and ok: "unpack_le16 (dat ! (?n - 2)) (dat ! (?n - 1)) = calculate_crc (take (?n - 2) dat)"
    by (simp_all add: crc_valid_def)
  have t: "take (?n - 2) ?dat' = (take (?n - 2) dat)[i := take (?n - 2) dat ! i XOR push_bit k 1]"
    using assms(2) by (simp add: take_update_swap)
  have "calculate_crc (take (?n - 2) ?dat') \<noteq> calculate_crc (take (?n - 2) dat)"
    unfolding t by (rule calculate_crc_flip) (use assms in simp_all)
  moreover have "?dat' ! (?n - 2) = dat ! (?n - 2)" "?dat' ! (?n - 1) = dat ! (?n - 1)"
    using assms(2) by simp_all
  ultimately have "unpack_le16 (?dat' ! (?n - 2)) (?dat' ! (?n - 1)) \<noteq> calculate_crc (take (?n - 2) ?dat')"
    using ok by simp
  with len show ?thesis
    by (simp add: flip_bit_at_def parse_response_def Let_def response_default_def is_valid_def)
qed

lemma crc_valid_exception_frame: "crc_valid [0x11, 0x83, 0x02, 0xC1, 0x34]"
  by code_simp

theorem C1_single_bit_flip_detected_witness:
  "crc_valid [0x11, 0x83, 0x02, 0xC1, 0x34] \<and> (2::nat) < length [0x11, 0x83, 0x02, 0xC1, 0x34 :: byte] - 2
   \<and> (0::nat) < 8
   \<and> flip_bit_at [0x11, 0x83, 0x02, 0xC1, 0x34] 2 0 = [0x11, 0x83, 0x03, 0xC1, 0x34]
   \<and> crc_error (fst (parse_response master_init [0x11, 0x83, 0x03, 0xC1, 0x34]))"
proof -
  have f: "flip_bit_at [0x11, 0x83, 0x02, 0xC1, 0x34] 2 0 = [0x11, 0x83, 0x03, 0xC1, 0x34]"
    by (simp add: flip_bit_at_def)
  have i: "(2::nat) < length [0x11, 0x83, 0x02, 0xC1, 0x34 :: byte] - 2" by simp
  from C1_single_bit_flip_detected [OF crc_valid_exception_frame i, of 0 master_init] f i
  show ?thesis by (simp add: crc_valid_exception_frame)
qed

subsection \<open>Exception names\<close>

lemma map_of_table_named:
  "c \<in> named_codes \<Longrightarrow>
   \<exists>name. map_of exceptions_table c = Some name \<and> (\<forall>k. name \<noteq> unknown_exception k)"
  by (auto simp: named_codes_def exceptions_table_def unknown_exception_def)

lemma map_of_table_other: "c \<notin> named_codes \<Longrightarrow> map_of exceptions_table c = None"
  by (simp add: named_codes_def exceptions_table_def)

text \<open>
  Claim C4, as stated, fails: the table has no entry for the codes 7 and 9, although they
  lie between 1 and 11, and they are rendered as unknown.
\<close>

theorem C4_code_7_unnamed:
  "(1::int) \<le> 7 \<and> (7::int) \<le> 11
   \<and> exception_name (response_default\<lparr>exception_code := Some 7\<rparr>) = ''Unknown Exception (7)''"
  by (simp add: exception_name_def exceptions_table_def unknown_exception_def str_int_def
        str_nat.simps digit_char_def)

text \<open>
  Claim C4, amended. For every exception code in the table (1, 2, 3, 4, 5, 6, 8, 10, 11)
  the name is the fixed table entry, which is not of the form "Unknown Exception (N)";
  for every other code N (7 and 9 among them) the name is exactly "Unknown Exception (N)"
  with N in decimal.
\<close>

theorem C4_exception_name:
  "(\<forall>c \<in> named_codes. \<exists>name. map_of exceptions_table c = Some name
        \<and> exception_name (r\<lparr>exception_code := Some c\<rparr>) = name
        \<and> name \<noteq> unknown_exception c)
   \<and> (\<forall>c. c \<notin> named_codes \<longrightarrow>
        exception_name (r\<lparr>exception_code := Some c\<rparr>) = ''Unknown Exception ('' @ str_int c @ '')'')"
proof (intro conjI ballI allI impI)
  fix c :: int assume "c \<in> named_codes"
  then obtain name where n: "map_of exceptions_table c = Some name" "\<forall>k. name \<noteq> unknown_exception k"
    using map_of_table_named by blast
  then show "\<exists>name. map_of exceptions_table c = Some name
        \<and> exception_name (r\<lparr>exception_code := Some c\<rparr>) = name
        \<and> name \<noteq> unknown_exception c"
    by (simp add: exception_name_def)
next
  fix c :: int assume "c \<notin> named_codes"
  then show "exception_name (r\<lparr>exception_code := Some c\<rparr>) = ''Unknown Exception ('' @ str_int c @ '')''"
    by (simp add: exception_name_def map_of_table_other unknown_exception_def)
qed

theorem C4_exception_name_witness:
  "(2::int) \<in> named_codes \<and> (9::int) \<notin> named_codes
   \<and> exception_name (response_default\<lparr>exception_code := Some 2\<rparr>) = ''Illegal Data Address''
   \<and> exception_name (response_default\<lparr>exception_code := Some 9\<rparr>) = ''Unknown Exception (9)''"
proof -
  have a: "(2::int) \<in> named_codes" and b: "(9::int) \<notin> named_codes"
    by (simp_all add: named_codes_def)
  have t: "map_of exceptions_table 2 = Some ''Illegal Data Address''"
    by (simp add: exceptions_table_def)
  have s: "str_int 9 = ''9''" by code_simp
  from C4_exception_name [of response_default] a b t s show ?thesis
    by auto
qed

subsection \<open>Completeness predicate\<close>

text \<open>
  Claim C5. For a buffer whose second byte is 0x03 or 0x04 and whose third byte is the
  byte count \<open>b\<close>, the predicate answers "complete" exactly when the buffer has at least
  \<open>5 + b\<close> bytes; with byte count 4, the first 8 bytes of a response are incomplete and
  the first 9 are complete; and a buffer of fewer than 5 bytes is never complete.
\<close>

theorem C5_complete_frame:
  "(\<forall>buffer. 3 \<le> length buffer \<and> buffer ! 1 \<in> {0x03, 0x04} \<longrightarrow>
       is_complete_frame buffer = (5 + unat (buffer ! 2) \<le> length buffer))
   \<and> (\<forall>buffer. 9 \<le> length buffer \<and> buffer ! 1 \<in> {0x03, 0x04} \<and> buffer ! 2 = 4 \<longrightarrow>
       \<not> is_complete_frame (take 8 buffer) \<and> is_complete_frame (take 9 buffer))
   \<and> (\<forall>buffer. length buffer < 5 \<longrightarrow> \<not> is_complete_frame buffer)"
  by (auto simp: is_complete_frame_def Let_def)

theorem C5_complete_frame_witness:
  "is_complete_frame [0x11, 0x03, 0x04, 0x00, 0x01, 0x00, 0x02, 0x3B, 0xF3]
   \<and> \<not> is_complete_frame [0x11, 0x03, 0x04, 0x00, 0x01, 0x00, 0x02, 0x3B]
   \<and> \<not> is_complete_frame [0x11, 0x03, 0x04, 0x00]"
proof -
  let ?b = "[0x11, 0x03, 0x04, 0x00, 0x01, 0x00, 0x02, 0x3B, 0xF3] :: byte list"
  have h1: "3 \<le> length ?b \<and> ?b ! 1 \<in> {0x03, 0x04}" by simp
  have h2: "9 \<le> length ?b \<and> ?b ! 1 \<in> {0x03, 0x04} \<and> ?b ! 2 = 4" by simp
  have h3: "length [0x11, 0x03, 0x04, 0x00 :: byte] < 5" by simp
  from C5_complete_frame have
    a: "3 \<le> length ?b \<and> ?b ! 1 \<in> {0x03, 0x04} \<longrightarrow>
          is_complete_frame ?b = (5 + unat (?b ! 2) \<le> length ?b)"
    and b: "9 \<le> length ?b \<and> ?b ! 1 \<in> {0x03, 0x04} \<and> ?b ! 2 = 4 \<longrightarrow>
          \<not> is_complete_frame (take 8 ?b) \<and> is_complete_frame (take 9 ?b)"
    and c: "length [0x11, 0x03, 0x04, 0x00 :: byte] < 5 \<longrightarrow>
          \<not> is_complete_frame [0x11, 0x03, 0x04, 0x00]"
    by blast+
  from a h1 have "is_complete_frame ?b" by simp
  moreover from b h2 have "\<not> is_complete_frame (take 8 ?b)" by blast
  moreover from c h3 have "\<not> is_complete_frame [0x11, 0x03, 0x04, 0x00]" by blast
  ultimately show ?thesis by simp
qed

subsection \<open>Exception responses\<close>

text \<open>
  Claim C6. Parsing a CRC-valid frame whose function-code byte is 0x83 and whose third
  byte is 0x02 gives a response that is an exception, carries the name
  "Illegal Data Address", and stores the function code 0x03.
\<close>

theorem C6_exception_frame:
  assumes "crc_valid dat" and "dat ! 1 = 0x83" and "dat ! 2 = 0x02"
  shows "is_exception (fst (parse_response m dat))
         \<and> exception_name (fst (parse_response m dat)) = ''Illegal Data Address''
         \<and> function_code (fst (parse_response m dat)) = Some 0x03"
  using assms
  by (simp add: crc_valid_def parse_response_def Let_def is_exception_def exception_name_def
        exceptions_table_def response_default_def)

theorem C6_exception_frame_witness:
  "crc_valid [0x11, 0x83, 0x02, 0xC1, 0x34]
   \<and> is_exception (fst (parse_response master_init [0x11, 0x83, 0x02, 0xC1, 0x34]))
   \<and> exception_name (fst (parse_response master_init [0x11, 0x83, 0x02, 0xC1, 0x34]))
       = ''Illegal Data Address''
   \<and> function_code (fst (parse_response master_init [0x11, 0x83, 0x02, 0xC1, 0x34])) = Some 0x03"
  using C6_exception_frame [OF crc_valid_exception_frame, of master_init]
  by (simp add: crc_valid_exception_frame)


subsection \<open>Round trip of a register read\<close>

lemma build_request_17: "build_read_request 17 3 100 2 = Inr request_17_100_2"
  by code_simp

lemma crc_valid_response_1_2: "crc_valid response_1_2"
  by code_simp

lemma parse_response_1_2:
  "fst (parse_response m response_1_2)
     = response_default\<lparr>slave_id := Some 17, function_code := Some 3,
         data := Some [4, 0, 1, 0, 2], raw_frame := Some response_1_2\<rparr>"
  using crc_valid_response_1_2
  by (simp add: parse_response_def Let_def crc_valid_def) (simp add: response_1_2_def)

text \<open>
  Claim C3. The read-holding-registers request for slave 17, start address 100, count 2
  is the 8-byte frame 11 03 00 64 00 02 87 44 (slave, function 0x03, big-endian address
  and count, little-endian CRC16 of the six bytes before it); and the read-registers
  pipeline, run against a device that answers that request with the well-formed response
  11 03 04 00 01 00 02 3B F3 (byte count 4, valid CRC), returns the registers [1, 2]
  and no error.
\<close>

theorem C3_read_round_trip:
  "build_read_request 17 (fc_value READ_HOLDING_REGISTERS) 100 2
      = Inr [0x11, 0x03, 0x00, 0x64, 0x00, 0x02, 0x87, 0x44]
   \<and> length [0x11, 0x03, 0x00, 0x64, 0x00, 0x02, 0x87, 0x44 :: byte] = 8
   \<and> pack_le16 (calculate_crc [0x11, 0x03, 0x00, 0x64, 0x00, 0x02]) = Inr [0x87, 0x44]
   \<and> crc_valid response_1_2
   \<and> map_sum id fst (read_holding_registers (master_on device_17) 17 100 2)
       = Inr (Some [1, 2], None)"
proof -
  have r: "build_read_request 17 (fc_value READ_HOLDING_REGISTERS) 100 2
      = Inr [0x11, 0x03, 0x00, 0x64, 0x00, 0x02, 0x87, 0x44]"
    using build_request_17 by (simp add: request_17_100_2_def)
  have t: "pack_le16 (calculate_crc [0x11, 0x03, 0x00, 0x64, 0x00, 0x02]) = Inr [0x87, 0x44]"
    by code_simp
  have s: "send_frame (master_on device_17) request_17_100_2
             = parse_response (count_request (master_on device_17)) response_1_2"
    by (simp add: send_frame_def master_on_def device_17_def) (simp add: response_1_2_def)
  have "read_holding_registers (master_on device_17) 17 100 2
          = Inr ((Some [1, 2], None),
                 snd (parse_response (count_request (master_on device_17)) response_1_2))"
    unfolding read_holding_registers_def read_registers_def
    by (simp add: build_request_17 bind_err_def s split_beta parse_response_1_2)
       (simp add: response_default_def is_exception_def unpack_be16_def)
  with r t crc_valid_response_1_2 show ?thesis by simp
qed

subsection \<open>Scanning\<close>

text \<open>The response of an exchange depends on the line only, not on the counters, and an
  exchange leaves the line as it was.\<close>

lemma parse_response_fst: "fst (parse_response m d) = fst (parse_response m0 d)"
  by (simp add: parse_response_def Let_def)

lemma parse_response_link: "same_link (snd (parse_response m d)) m"
  by (simp add: parse_response_def Let_def same_link_def)

lemma send_frame_fst: "same_link m m0 \<Longrightarrow> fst (send_frame m f) = fst (send_frame m0 f)"
  using parse_response_fst [of "count_request m" _ "count_request m0"]
  by (auto simp: send_frame_def same_link_def split: option.splits exchange.splits)

lemma send_frame_link: "same_link (snd (send_frame m f)) m"
  using parse_response_link [of "count_request m"]
  by (auto simp: send_frame_def same_link_def count_request_def count_timeout_def
           split: option.splits exchange.splits)

lemma probe_device_step:
  assumes "probe_device m sid 65535 = Inr (r, m')" and "same_link m m0"
  shows "probe_response m0 sid = Some r \<and> same_link m' m0"
proof -
  from assms(1) obtain f
    where f: "build_read_request sid (fc_value READ_HOLDING_REGISTERS) 65535 1 = Inr f"
      and s: "send_frame m f = (r, m')"
    by (auto simp: probe_device_def bind_err_def split: sum.splits)
  from s send_frame_fst [OF assms(2), of f] have "fst (send_frame m0 f) = r" by simp
  then have "probe_response m0 sid = Some r"
    using f by (simp add: probe_response_def probe_device_def bind_err_def split_beta)
  moreover from s send_frame_link [of m f] assms(2) have "same_link m' m0"
    by (simp add: same_link_def)
  ultimately show ?thesis by simp
qed

lemma probe_device_total:
  assumes "0 \<le> sid" and "sid \<le> 255"
  shows "\<exists>r m'. probe_device m sid 65535 = Inr (r, m')"
proof -
  obtain frame where "pack_u8 sid = Inr [word_of_int sid]"
     and fr: "frame = [word_of_int sid] @ [3] @ [255, 255] @ [0, 1 :: byte]"
    using assms by (simp add: pack_u8_def)
  moreover have "\<exists>t. pack_le16 (calculate_crc frame) = Inr t"
    using calculate_crc_range [of frame] by (simp add: pack_le16_def)
  ultimately have "\<exists>f. build_read_request sid 3 65535 1 = Inr f"
    by (auto simp: build_read_request_def bind_err_def pack_be16_def pack_u8_def Let_def)
  then show ?thesis
    by (auto simp: probe_device_def bind_err_def intro: prod.exhaust)
qed

lemma first_valid_Cons:
  "first_valid m0 (x # xs) seen r =
     ((probe_response m0 x = Some r \<and> is_valid r \<and> slave_id r \<notin> seen)
      \<or> (first_valid m0 xs seen r
          \<and> (\<forall>r'. probe_response m0 x = Some r' \<and> is_valid r' \<longrightarrow> slave_id r' \<noteq> slave_id r)))"
  (is "?L = (?A \<or> ?B)")
proof
  assume ?L
  then obtain pre s post where h: "x # xs = pre @ s # post" "probe_response m0 s = Some r"
     "is_valid r" "slave_id r \<notin> seen"
     "\<forall>s' \<in> set pre. \<forall>r'. probe_response m0 s' = Some r' \<and> is_valid r' \<longrightarrow> slave_id r' \<noteq> slave_id r"
    unfolding first_valid_def by blast
  show "?A \<or> ?B"
  proof (cases pre)
    case Nil
    with h show ?thesis by simp
  next
    case (Cons y pre')
    with h have "xs = pre' @ s # post" "x = y" by simp_all
    with h Cons have ?B unfolding first_valid_def by auto
    then show ?thesis ..
  qed
next
  assume "?A \<or> ?B"
  then show ?L
  proof
    assume ?A
    then have "x # xs = [] @ x # xs \<and> probe_response m0 x = Some r \<and> is_valid r
      \<and> slave_id r \<notin> seen
      \<and> (\<forall>s' \<in> set []. \<forall>r'. probe_response m0 s' = Some r' \<and> is_valid r'
            \<longrightarrow> slave_id r' \<noteq> slave_id r)"
      by simp
    then show ?L unfolding first_valid_def by blast
  next
    assume b: ?B
    then obtain pre s post where h: "xs = pre @ s # post" "probe_response m0 s = Some r"
     "is_valid r" "slave_id r \<notin> seen"
     "\<forall>s' \<in> set pre. \<forall>r'. probe_response m0 s' = Some r' \<and> is_valid r' \<longrightarrow> slave_id r' \<noteq> slave_id r"
      unfolding first_valid_def by blast
    with b have "x # xs = (x # pre) @ s # post \<and> probe_response m0 s = Some r \<and> is_valid r
      \<and> slave_id r \<notin> seen
      \<and> (\<forall>s' \<in> set (x # pre). \<forall>r'. probe_response m0 s' = Some r' \<and> is_valid r'
            \<longrightarrow> slave_id r' \<noteq> slave_id r)"
      by simp
    then show ?L unfolding first_valid_def by blast
  qed
qed

lemma first_valid_insert:
  "first_valid m0 xs (insert a seen) r = (first_valid m0 xs seen r \<and> slave_id r \<noteq> a)"
  unfolding first_valid_def by auto

lemma first_valid_unseen: "first_valid m0 xs seen r \<Longrightarrow> slave_id r \<notin> seen"
  unfolding first_valid_def by auto

lemma scan_loop_total:
  "\<forall>s \<in> set xs. 0 \<le> s \<and> s \<le> 255 \<Longrightarrow> \<exists>out m'. scan_loop m xs found fids = Inr (out, m')"
proof (induction xs arbitrary: m found fids)
  case Nil
  then show ?case by simp
next
  case (Cons x xs)
  then obtain r m1 where "probe_device m x 65535 = Inr (r, m1)"
    using probe_device_total [of x m] by auto
  with Cons show ?case by simp
qed

lemma scan_loop_char:
  assumes "scan_loop m xs found fids = Inr (out, m')"
    and "same_link m m0" and "fids = fst ` set found" and "distinct (map fst found)"
  shows "distinct (map fst out)
       \<and> set out = set found \<union> {(slave_id r, r) | r. first_valid m0 xs fids r}"
  using assms
proof (induction xs arbitrary: m found fids)
  case Nil
  then show ?case by (simp add: first_valid_def)
next
  case (Cons x xs)
  from Cons.prems(1) obtain r m1 where p: "probe_device m x 65535 = Inr (r, m1)"
    by (auto split: sum.splits)
  from probe_device_step [OF p Cons.prems(2)]
  have pr: "probe_response m0 x = Some r" and l: "same_link m1 m0" by simp_all
  show ?case
  proof (cases "is_valid r \<and> slave_id r \<notin> fids")
    case True
    with Cons.prems(1) p have
      "scan_loop m1 xs (found @ [(slave_id r, r)]) (insert (slave_id r) fids) = Inr (out, m')"
      by simp
    moreover have "insert (slave_id r) fids = fst ` set (found @ [(slave_id r, r)])"
      using Cons.prems(3) by auto
    moreover have "distinct (map fst (found @ [(slave_id r, r)]))"
      using Cons.prems(3,4) True by auto
    ultimately have ih: "distinct (map fst out)"
      "set out = set (found @ [(slave_id r, r)])
          \<union> {(slave_id r', r') | r'. first_valid m0 xs (insert (slave_id r) fids) r'}"
      using Cons.IH [OF _ l] by blast+
    have "{(slave_id r', r') | r'. first_valid m0 (x # xs) fids r'}
           = insert (slave_id r, r)
               {(slave_id r', r') | r'. first_valid m0 xs (insert (slave_id r) fids) r'}"
      using True pr by (auto simp: first_valid_Cons first_valid_insert)
    with ih show ?thesis by auto
  next
    case False
    with Cons.prems(1) p have "scan_loop m1 xs found fids = Inr (out, m')"
      by auto
    from Cons.IH [OF this l Cons.prems(3,4)]
    have ih: "distinct (map fst out)"
      "set out = set found \<union> {(slave_id r', r') | r'. first_valid m0 xs fids r'}"
      by blast+
    have "{(slave_id r', r') | r'. first_valid m0 (x # xs) fids r'}
           = {(slave_id r', r') | r'. first_valid m0 xs fids r'}"
      using False pr first_valid_unseen [of m0 xs fids] by (auto simp: first_valid_Cons)
    with ih show ?thesis by auto
  qed
qed

lemma misreporting_probe_4: "probe_response (master_on misreporting_bus) 4 = Some reply_4"
  by code_simp

lemma misreporting_scan:
  "map_sum id fst (scan_slaves (master_on misreporting_bus) [1, 2, 3, 4, 5])
     = Inr [(Some 2, reply_2)]"
  by code_simp

text \<open>
  Claim C7, as stated, fails. On a scan of the ids 1 to 5 where the probes of 2 and of 4
  both get a valid response reporting slave id 2, the response to the probe of 4 is valid
  and yet not in the returned list: the list holds the response to the probe of 2 only.
\<close>

theorem C7_valid_response_dropped:
  "probe_response (master_on misreporting_bus) 4 = Some reply_4
   \<and> is_valid reply_4
   \<and> map_sum id fst (scan_slaves (master_on misreporting_bus) [1, 2, 3, 4, 5])
       = Inr [(Some 2, reply_2)]
   \<and> (slave_id reply_4, reply_4) \<notin> set [(Some 2, reply_2)]"
proof -
  have "is_valid reply_4 \<and> (slave_id reply_4, reply_4) \<notin> set [(Some 2, reply_2)]"
    by (simp add: is_valid_def reply_4_def reply_2_def)
  with misreporting_probe_4 misreporting_scan show ?thesis by simp
qed

text \<open>
  Claim C7, amended. For every range of slave ids that fit a byte and every line, the scan
  returns a list such that: an entry (reported id, response) is in the list exactly when
  the response is the one a probed id of the range got, it is valid (neither the timeout
  flag nor the CRC-error flag is set; an exception response counts), and no id probed
  earlier got a valid response reporting the same slave id; every entry is keyed by the
  slave id its response reports; and the list has at most one entry per reported slave id.
\<close>

theorem C7_scan_first_valid_per_id:
  assumes "\<forall>s \<in> set slave_range. 0 \<le> s \<and> s \<le> 255"
  shows "\<exists>found m'. scan_slaves m slave_range = Inr (found, m')
       \<and> distinct (map fst found)
       \<and> (\<forall>r. (slave_id r, r) \<in> set found \<longleftrightarrow> first_valid m slave_range {} r)
       \<and> (\<forall>e \<in> set found. fst e = slave_id (snd e))"
proof -
  from scan_loop_total [OF assms] obtain found m'
    where s: "scan_loop m slave_range [] {} = Inr (found, m')" by blast
  have "same_link m m" by (simp add: same_link_def)
  with s have "distinct (map fst found)
       \<and> set found = set [] \<union> {(slave_id r, r) | r. first_valid m slave_range {} r}"
    by (intro scan_loop_char) simp_all
  then have "distinct (map fst found)
       \<and> (\<forall>r. (slave_id r, r) \<in> set found \<longleftrightarrow> first_valid m slave_range {} r)
       \<and> (\<forall>e \<in> set found. fst e = slave_id (snd e))"
    by auto
  with s show ?thesis unfolding scan_slaves_def by blast
qed

theorem C7_scan_first_valid_per_id_witness:
  "list_all (\<lambda>s. 0 \<le> s \<and> s \<le> 255) [1, 2, 3, 4, 5 :: int]
   \<and> first_valid (master_on misreporting_bus) [1, 2, 3, 4, 5] {} reply_2
   \<and> \<not> first_valid (master_on misreporting_bus) [1, 2, 3, 4, 5] {} reply_4"
proof -
  have h: "\<forall>s \<in> set [1, 2, 3, 4, 5 :: int]. 0 \<le> s \<and> s \<le> 255" by simp
  from C7_scan_first_valid_per_id [OF h, of "master_on misreporting_bus"]
  obtain found m' where
    s: "scan_slaves (master_on misreporting_bus) [1, 2, 3, 4, 5] = Inr (found, m')"
    and c: "\<forall>r. (slave_id r, r) \<in> set found
              \<longleftrightarrow> first_valid (master_on misreporting_bus) [1, 2, 3, 4, 5] {} r"
    by blast
  from s misreporting_scan have f: "found = [(Some 2, reply_2)]" by simp
  have "(slave_id reply_2, reply_2) \<in> set found" "(slave_id reply_4, reply_4) \<notin> set found"
    unfolding f by (simp_all add: reply_2_def reply_4_def)
  moreover have "list_all (\<lambda>s. 0 \<le> s \<and> s \<le> 255) [1, 2, 3, 4, 5 :: int]" by simp
  ultimately show ?thesis using c by blast
qed


subsection \<open>Rounding to binary64 stays finite below \<open>2 ^ 1023\<close>\<close>

lemma pow2_powi: "pow2 k = 2 powi k"
  by (simp add: pow2_def power_int_def inverse_eq_divide power_one_over)

lemma pow2_pos: "0 < pow2 k"
  by (simp add: pow2_def)

lemma pow2_add: "pow2 (j + k) = pow2 j * pow2 k"
  by (simp add: pow2_powi power_int_add)

lemma pow2_less: "j < k \<Longrightarrow> pow2 j < pow2 k"
  by (simp add: pow2_powi power_int_strict_increasing)

lemma pow2_le: "j \<le> k \<Longrightarrow> pow2 j \<le> pow2 k"
  by (simp add: pow2_powi power_int_increasing)

lemma pow2_less_cancel: "pow2 j < pow2 k \<Longrightarrow> j < k"
  using pow2_le [of k j] by (cases "j < k") auto

lemma bitlen_pow2_bounds:
  assumes "0 < n"
  shows "pow2 (bitlen n - 1) \<le> of_int n" and "of_int n < pow2 (bitlen n)"
proof -
  from bitlen_bounds [OF assms] have b: "2 ^ nat (bitlen n - 1) \<le> n" "n < 2 ^ nat (bitlen n)"
    by simp_all
  have p: "1 \<le> bitlen n" using assms bitlen_eq_zero_iff [of n] bitlen_nonneg [of n] by linarith
  have "pow2 (bitlen n - 1) = of_int (2 ^ nat (bitlen n - 1))"
    using p by (simp add: pow2_def)
  also have "\<dots> \<le> of_int n" using b(1) by (simp only: of_int_le_iff)
  finally show "pow2 (bitlen n - 1) \<le> of_int n" .
  have "of_int n < (of_int (2 ^ nat (bitlen n)) :: rat)" using b(2) by (simp only: of_int_less_iff)
  also have "\<dots> = pow2 (bitlen n)" using p by (simp add: pow2_def)
  finally show "of_int n < pow2 (bitlen n)" .
qed

lemma floor_log2_bounds:
  assumes "0 < q"
  shows "pow2 (floor_log2 q) \<le> q" and "q < pow2 (floor_log2 q + 1)"
proof -
  obtain n d where qd: "quotient_of q = (n, d)" by (cases "quotient_of q")
  then have d: "0 < d" using quotient_of_denom_pos by blast
  from qd have q: "q = of_int n / of_int d" by (rule quotient_of_div)
  with assms d have n: "0 < n" by (simp add: zero_less_divide_iff)
  let ?k = "bitlen n - bitlen d"
  note bn = bitlen_pow2_bounds [OF n] and bd = bitlen_pow2_bounds [OF d]
  have dpos: "0 < (of_int d :: rat)" using d by simp
  have up: "q < pow2 (?k + 1)"
  proof -
    have "of_int n * pow2 (bitlen d - 1) < pow2 (bitlen n) * of_int d"
      using bn(2) bd(1) n pow2_pos [of "bitlen d - 1"]
      by (intro mult_less_le_imp_less) simp_all
    then have "of_int n / of_int d < pow2 (bitlen n) / pow2 (bitlen d - 1)"
      using dpos pow2_pos [of "bitlen d - 1"] by (simp add: field_simps)
    also have "pow2 (bitlen n) = pow2 (?k + 1) * pow2 (bitlen d - 1)"
      by (simp add: pow2_add [symmetric])
    finally show ?thesis using pow2_pos [of "bitlen d - 1"] by (simp add: q)
  qed
  have lo: "pow2 (?k - 1) \<le> q"
  proof -
    have "pow2 (bitlen n - 1) * of_int d \<le> of_int n * pow2 (bitlen d)"
      using bn(1) bd(2) n d pow2_pos [of "bitlen n - 1"]
      by (intro mult_mono) simp_all
    then have "pow2 (bitlen n - 1) / pow2 (bitlen d) \<le> of_int n / of_int d"
      using dpos pow2_pos [of "bitlen d"] by (simp add: field_simps)
    moreover have "pow2 (bitlen n - 1) = pow2 (?k - 1) * pow2 (bitlen d)"
      by (simp add: pow2_add [symmetric])
    ultimately show ?thesis using pow2_pos [of "bitlen d"] by (simp add: q)
  qed
  have fl: "floor_log2 q = (if pow2 ?k \<le> q then ?k else ?k - 1)"
    by (simp add: floor_log2_def qd Let_def)
  show "pow2 (floor_log2 q) \<le> q" using lo by (simp add: fl)
  show "q < pow2 (floor_log2 q + 1)" using up by (auto simp: fl)
qed

lemma round_half_even_bounds:
  "of_int (round_half_even q) \<le> q + 1" "q - 1 \<le> of_int (round_half_even q)"
  "of_int \<lfloor>q\<rfloor> \<le> (of_int (round_half_even q) :: rat)"
  unfolding round_half_even_def Let_def by (auto; linarith)+


lemma binary64_round_finite:
  assumes "\<bar>q\<bar> < pow2 1023"
  shows "\<exists>x. binary64_round q = Finite x"
proof (cases "q = 0")
  case True
  then show ?thesis by (simp add: binary64_round_def)
next
  case False
  let ?a = "\<bar>q\<bar>"
  let ?L = "floor_log2 ?a"
  let ?e = "max (?L - 52) (- 1074)"
  let ?m = "round_half_even (?a / pow2 ?e)"
  from False have a: "0 < ?a" by simp
  note fl = floor_log2_bounds [OF a]
  from fl(1) assms have "pow2 ?L < pow2 1023" by simp
  then have L: "?L < 1023" by (rule pow2_less_cancel)
  have "?a / pow2 ?e < pow2 (?L + 1) / pow2 ?e"
    using fl(2) pow2_pos [of ?e] by (simp add: divide_strict_right_mono)
  also have "pow2 (?L + 1) = pow2 (?L + 1 - ?e) * pow2 ?e"
    by (simp add: pow2_add [symmetric])
  also have "pow2 (?L + 1 - ?e) * pow2 ?e / pow2 ?e = pow2 (?L + 1 - ?e)"
    using pow2_pos [of ?e] by simp
  also have "\<dots> \<le> pow2 53" by (intro pow2_le) simp
  finally have x: "?a / pow2 ?e < pow2 53" .
  have "of_int ?m \<le> ?a / pow2 ?e + 1" by (rule round_half_even_bounds)
  also have "\<dots> < pow2 53 + 1" using x by simp
  also have "\<dots> \<le> (of_int (2 ^ 54) :: rat)" by (simp add: pow2_def)
  finally have "?m < 2 ^ 54" by (simp only: of_int_less_iff)
  then have "bitlen ?m \<le> 54" by (simp add: bitlen_le_iff_power)
  with L have "\<not> 1025 \<le> bitlen ?m + ?e" by simp
  with False show ?thesis by (simp add: binary64_round_def Let_def)
qed

lemma binary64_round_positive:
  assumes "1 \<le> q" and "q < pow2 1023"
  shows "\<exists>x. binary64_round q = Finite x \<and> 0 < x"
proof -
  let ?L = "floor_log2 q"
  let ?e = "max (?L - 52) (- 1074)"
  let ?m = "round_half_even (q / pow2 ?e)"
  from assms have q: "0 < q" "\<bar>q\<bar> = q" by simp_all
  note fl = floor_log2_bounds [OF q(1)]
  have "pow2 0 < pow2 (?L + 1)" using fl(2) assms(1) by (simp add: pow2_def)
  then have L: "0 \<le> ?L" using pow2_less_cancel [of 0 "?L + 1"] by simp
  then have e: "?e = ?L - 52" by simp
  have "pow2 52 = pow2 (?L - ?e)" by (simp add: e)
  also have "\<dots> = pow2 ?L / pow2 ?e"
    using pow2_add [of "?L - ?e" ?e] pow2_pos [of ?e] by (simp add: field_simps)
  also have "\<dots> \<le> q / pow2 ?e"
    using fl(1) pow2_pos [of ?e] by (simp add: divide_right_mono)
  finally have "(of_int (2 ^ 52) :: rat) \<le> q / pow2 ?e" by (simp add: pow2_def)
  then have "2 ^ 52 \<le> \<lfloor>q / pow2 ?e\<rfloor>" by (simp only: le_floor_iff)
  moreover have "\<lfloor>q / pow2 ?e\<rfloor> \<le> ?m"
    using round_half_even_bounds(3) [of "q / pow2 ?e"] by (simp only: of_int_le_iff)
  ultimately have "2 ^ 52 \<le> ?m" by (rule order_trans)
  moreover have "(0::int) < 2 ^ 52" by simp
  ultimately have m: "0 < ?m" by (rule less_le_trans [rotated])
  from binary64_round_finite [of q] assms q obtain x where x: "binary64_round q = Finite x"
    by auto
  with q(1) have "x = of_int ?m * pow2 ?e"
    by (simp add: binary64_round_def Let_def q(2) split: if_splits)
  with m pow2_pos [of ?e] have "0 < x" by simp
  with x show ?thesis by simp
qed

lemma int_truediv_total:
  assumes "b \<noteq> 0" and "\<bar>a\<bar> < 2 ^ 1023"
  shows "\<exists>x. int_truediv a b = Inr (Finite x)"
proof -
  have "\<bar>of_int a / of_int b :: rat\<bar> = of_int \<bar>a\<bar> / of_int \<bar>b\<bar>" by simp
  also have "\<dots> \<le> of_int \<bar>a\<bar>"
  proof -
    have "1 \<le> \<bar>b\<bar>" using assms(1) by linarith
    then have b1: "(1::rat) \<le> of_int \<bar>b\<bar>" by (simp only: of_int_1_le_iff)
    have "(of_int \<bar>a\<bar> :: rat) / of_int \<bar>b\<bar> \<le> of_int \<bar>a\<bar> / 1"
      using b1 by (intro divide_left_mono) simp_all
    then show ?thesis by simp
  qed
  also have "\<dots> < of_int (2 ^ 1023)" using assms(2) by (simp only: of_int_less_iff)
  also have "\<dots> = pow2 1023" by (simp add: pow2_def)
  finally obtain x where "binary64_round (of_int a / of_int b) = Finite x"
    using binary64_round_finite by blast
  with assms(1) show ?thesis by (simp add: int_truediv_def)
qed

lemma float_div_len_total:
  assumes "0 < n" and "n < 2 ^ 1023"
  shows "\<exists>y. float_div_len x n = Inr y"
proof -
  have "(1::rat) \<le> of_int (int n)" using assms(1) by simp
  moreover have "(of_int (int n) :: rat) < pow2 1023"
  proof -
    have "int n < 2 ^ 1023" using assms(2) by (simp add: of_nat_less_numeral_power_cancel_iff)
    then have "(of_int (int n) :: rat) < of_int (2 ^ 1023)" by (simp only: of_int_less_iff)
    then show ?thesis by (simp add: pow2_def)
  qed
  ultimately obtain d where "binary64_round (of_int (int n)) = Finite d" "0 < d"
    using binary64_round_positive by blast
  then show ?thesis by (simp add: float_div_len_def float_of_int_def bind_err_def)
qed


subsection \<open>Statistics\<close>

lemma rate_percent_7_10: "rate_percent 7 10 = Inr (Finite 70)"
  by code_simp

lemma rate_percent_3_10: "rate_percent 3 10 = Inr (Finite 30)"
  by code_simp

text \<open>
  Claim C8. When the counters read exactly 10 requests sent, 7 responses received,
  2 timeouts and 1 CRC error, \<open>get_statistics\<close> reports a success rate equal to 70.0 and
  an error rate equal to 30.0 (the quotients 7 / 10 and 3 / 10 and their products with
  100, each rounded to binary64, are exactly 70 and 30); and whenever no request has been
  sent both rates are 0.
\<close>

theorem C8_statistics_rates:
  "(\<forall>m. requests_sent (stats m) = 10 \<and> responses_received (stats m) = 7
         \<and> timeouts (stats m) = 2 \<and> crc_errors (stats m) = 1
       \<longrightarrow> (\<exists>r. get_statistics m = Inr r
              \<and> success_rate r = Finite 70 \<and> error_rate r = Finite 30))
   \<and> (\<forall>m. requests_sent (stats m) = 0
       \<longrightarrow> (\<exists>r. get_statistics m = Inr r
              \<and> success_rate r = Finite 0 \<and> error_rate r = Finite 0))"
  by (auto simp: get_statistics_def rate_percent_7_10 rate_percent_3_10 bind_err_def)
     (simp_all add: rate_percent_def)

theorem C8_statistics_rates_witness:
  "requests_sent (stats master_10_7_2_1) = 10 \<and> responses_received (stats master_10_7_2_1) = 7
   \<and> timeouts (stats master_10_7_2_1) = 2 \<and> crc_errors (stats master_10_7_2_1) = 1
   \<and> map_sum id success_rate (get_statistics master_10_7_2_1) = Inr (Finite 70)
   \<and> map_sum id error_rate (get_statistics master_10_7_2_1) = Inr (Finite 30)
   \<and> requests_sent (stats master_init) = 0
   \<and> map_sum id success_rate (get_statistics master_init) = Inr (Finite 0)
   \<and> map_sum id error_rate (get_statistics master_init) = Inr (Finite 0)"
proof -
  have h1: "requests_sent (stats master_10_7_2_1) = 10 \<and> responses_received (stats master_10_7_2_1) = 7
         \<and> timeouts (stats master_10_7_2_1) = 2 \<and> crc_errors (stats master_10_7_2_1) = 1"
    by (simp add: master_10_7_2_1_def)
  have h2: "requests_sent (stats master_init) = 0"
    by (simp add: master_init_def stats_zero_def)
  from C8_statistics_rates h1 obtain r1 where "get_statistics master_10_7_2_1 = Inr r1"
    "success_rate r1 = Finite 70" "error_rate r1 = Finite 30" by blast
  moreover from C8_statistics_rates h2 obtain r2 where "get_statistics master_init = Inr r2"
    "success_rate r2 = Finite 0" "error_rate r2 = Finite 0" by blast
  ultimately show ?thesis using h1 h2 by simp
qed


subsection \<open>Wave segmentation\<close>

lemma sum_list_abs_bound:
  "(\<forall>x \<in> set xs. \<bar>x\<bar> < (b::int)) \<Longrightarrow> \<bar>sum_list xs\<bar> \<le> int (length xs) * b"
proof (induction xs)
  case Nil
  then show ?case by simp
next
  case (Cons x xs)
  then have "\<bar>sum_list xs\<bar> \<le> int (length xs) * b" "\<bar>x\<bar> < b" by simp_all
  then show ?case by (simp add: algebra_simps)
qed

lemma length_deque_append: "length q \<le> 100 \<Longrightarrow> length (deque_append q x) \<le> 100"
  "0 < length (deque_append q x)" "deque_append q x \<noteq> []"
  by (auto simp: deque_append_def)

lemma set_deque_append: "set (deque_append q x) \<subseteq> insert x (set q)"
proof (cases q)
  case Nil
  then show ?thesis by (simp add: deque_append_def)
next
  case (Cons y ys)
  then show ?thesis by (auto simp: deque_append_def)
qed

lemma update_wave_averages_total:
  assumes "length (wave_intervals ws) \<le> 100" and "length (waves ws) \<le> 100"
    and "\<forall>w \<in> set (waves ws). \<bar>msg_count w\<bar> < 2 ^ 1000"
  shows "\<exists>ws'. update_wave_averages ws = Inr ws'
           \<and> waves ws' = waves ws
           \<and> current_wave_start ws' = current_wave_start ws
           \<and> current_wave_msgs ws' = current_wave_msgs ws
           \<and> last_msg_time ws' = last_msg_time ws"
proof -
  have s1: "\<exists>ws1. (if wave_intervals ws \<noteq> []
               then bind_err (float_div_len (py_sum (wave_intervals ws))
                                (length (wave_intervals ws)))
                      (\<lambda>avg. Inr (ws\<lparr>avg_wave_interval := avg\<rparr>))
               else Inr ws) = Inr ws1
            \<and> waves ws1 = waves ws \<and> current_wave_start ws1 = current_wave_start ws
            \<and> current_wave_msgs ws1 = current_wave_msgs ws \<and> last_msg_time ws1 = last_msg_time ws"
  proof (cases "wave_intervals ws = []")
    case True
    then show ?thesis by simp
  next
    case False
    have "(100::nat) < 2 ^ 1023" by simp
    with assms(1) have "length (wave_intervals ws) < 2 ^ 1023" by (rule le_less_trans)
    with False obtain y where
      "float_div_len (py_sum (wave_intervals ws)) (length (wave_intervals ws)) = Inr y"
      using float_div_len_total [of "length (wave_intervals ws)"] by auto
    with False show ?thesis by (simp add: bind_err_def)
  qed
  then obtain ws1 where ws1: "(if wave_intervals ws \<noteq> []
               then bind_err (float_div_len (py_sum (wave_intervals ws))
                                (length (wave_intervals ws)))
                      (\<lambda>avg. Inr (ws\<lparr>avg_wave_interval := avg\<rparr>))
               else Inr ws) = Inr ws1"
    and k: "waves ws1 = waves ws" "current_wave_start ws1 = current_wave_start ws"
       "current_wave_msgs ws1 = current_wave_msgs ws" "last_msg_time ws1 = last_msg_time ws"
    by blast
  have s2: "\<exists>ws'. (if waves ws1 \<noteq> []
       then bind_err (int_truediv (sum_list (map msg_count (waves ws1)))
                        (int (length (waves ws1))))
              (\<lambda>avg. Inr (ws1\<lparr>avg_msgs_per_wave := avg\<rparr>))
       else Inr ws1) = Inr ws'
        \<and> waves ws' = waves ws \<and> current_wave_start ws' = current_wave_start ws
        \<and> current_wave_msgs ws' = current_wave_msgs ws \<and> last_msg_time ws' = last_msg_time ws"
  proof (cases "waves ws = []")
    case True
    then show ?thesis using k by simp
  next
    case False
    have "\<forall>x \<in> set (map msg_count (waves ws)). \<bar>x\<bar> < 2 ^ 1000"
      using assms(3) by auto
    then have "\<bar>sum_list (map msg_count (waves ws))\<bar>
                 \<le> int (length (map msg_count (waves ws))) * 2 ^ 1000"
      by (rule sum_list_abs_bound)
    also have "\<dots> \<le> 100 * 2 ^ 1000" using assms(2) by simp
    also have "\<dots> < (2::int) ^ 1023" by simp
    finally obtain x where
      "int_truediv (sum_list (map msg_count (waves ws))) (int (length (waves ws))) = Inr (Finite x)"
      using False int_truediv_total [of "int (length (waves ws))"] by auto
    with False show ?thesis using k by (simp add: bind_err_def)
  qed
  show ?thesis unfolding update_wave_averages_def ws1 using s2 by (simp add: bind_err_def)
qed

lemma close_wave_total:
  assumes "wave_counts_bounded ws"
  shows "\<exists>ws'. close_wave ws cws l = Inr ws'
           \<and> waves ws' = deque_append (waves ws)
                \<lparr>wave_start = cws, wave_end = l, duration = total_seconds (l - cws),
                 msg_count = current_wave_msgs ws\<rparr>
           \<and> current_wave_start ws' = current_wave_start ws
           \<and> current_wave_msgs ws' = current_wave_msgs ws
           \<and> last_msg_time ws' = last_msg_time ws"
proof -
  let ?info = "\<lparr>wave_start = cws, wave_end = l, duration = total_seconds (l - cws),
                 msg_count = current_wave_msgs ws\<rparr>"
  let ?ws2 = "record_wave_interval (append_closed_wave ws cws l) cws"
  from assms have b: "length (waves ws) \<le> 100" "length (wave_intervals ws) \<le> 100"
     "\<bar>current_wave_msgs ws\<bar> < 2 ^ 1000" "\<forall>w \<in> set (waves ws). \<bar>msg_count w\<bar> < 2 ^ 1000"
    by (simp_all add: wave_counts_bounded_def)
  have w2: "waves ?ws2 = deque_append (waves ws) ?info"
     "current_wave_start ?ws2 = current_wave_start ws"
     "current_wave_msgs ?ws2 = current_wave_msgs ws" "last_msg_time ?ws2 = last_msg_time ws"
    by (simp_all add: record_wave_interval_def append_closed_wave_def Let_def)
  have "length (wave_intervals ?ws2) \<le> 100"
    using b(2) length_deque_append(1) [of "wave_intervals ws"]
    by (simp add: record_wave_interval_def append_closed_wave_def Let_def)
  moreover have "length (waves ?ws2) \<le> 100"
    unfolding w2 using b(1) by (rule length_deque_append)
  moreover have "\<forall>w \<in> set (waves ?ws2). \<bar>msg_count w\<bar> < 2 ^ 1000"
    unfolding w2 using b(3,4) set_deque_append [of "waves ws" ?info] by auto
  ultimately show ?thesis
    unfolding close_wave_def using update_wave_averages_total [of ?ws2] w2 by simp
qed

lemma wave_step_continue:
  assumes "last_msg_time ws = Some l" and "\<not> float_lt thr (total_seconds (t - l))"
  shows "wave_step thr ws t
           = Inr (ws\<lparr>current_wave_msgs := current_wave_msgs ws + 1, last_msg_time := Some t\<rparr>)"
  using assms by (simp add: wave_step_def bind_err_def)

lemma wave_step_first:
  assumes "last_msg_time ws = None"
  shows "wave_step thr ws t
           = Inr (ws\<lparr>current_wave_start := Some t, current_wave_msgs := 1, last_msg_time := Some t\<rparr>)"
  using assms by (simp add: wave_step_def bind_err_def)

lemma wave_step_close:
  assumes "last_msg_time ws = Some l" and "float_lt thr (total_seconds (t - l))"
    and "current_wave_start ws = Some cws" and "wave_counts_bounded ws"
  shows "\<exists>ws'. wave_step thr ws t = Inr ws'
           \<and> waves ws' = deque_append (waves ws)
                \<lparr>wave_start = cws, wave_end = l, duration = total_seconds (l - cws),
                 msg_count = current_wave_msgs ws\<rparr>
           \<and> current_wave_start ws' = Some t \<and> current_wave_msgs ws' = 1
           \<and> last_msg_time ws' = Some t"
proof -
  from close_wave_total [OF assms(4), of cws l] obtain ws1 where
    "close_wave ws cws l = Inr ws1"
    "waves ws1 = deque_append (waves ws)
                \<lparr>wave_start = cws, wave_end = l, duration = total_seconds (l - cws),
                 msg_count = current_wave_msgs ws\<rparr>"
    by blast
  with assms(1,2,3) show ?thesis by (simp add: wave_step_def bind_err_def)
qed

lemma float_lt_not_le: "float_lt x y \<Longrightarrow> \<not> float_le y x"
  by (cases x; cases y) simp_all

lemma wave_step_total:
  assumes "wave_counts_bounded ws"
  shows "\<exists>ws'. wave_step thr ws t = Inr ws' \<and> last_msg_time ws' = Some t
           \<and> current_wave_msgs ws'
               = (case last_msg_time ws of
                    Some l \<Rightarrow> if float_lt thr (total_seconds (t - l)) then 1
                               else current_wave_msgs ws + 1
                  | None \<Rightarrow> 1)"
proof (cases "last_msg_time ws")
  case None
  then show ?thesis by (simp add: wave_step_first)
next
  case (Some l)
  show ?thesis
  proof (cases "float_lt thr (total_seconds (t - l))")
    case False
    with Some show ?thesis by (simp add: wave_step_continue)
  next
    case True
    show ?thesis
    proof (cases "current_wave_start ws")
      case None
      with Some True show ?thesis by (simp add: wave_step_def bind_err_def)
    next
      case (Some cws)
      from wave_step_close [OF \<open>last_msg_time ws = Some l\<close> True Some assms]
      show ?thesis using \<open>last_msg_time ws = Some l\<close> True by auto
    qed
  qed
qed

lemma poll_step_total:
  assumes "length (intervals st) \<le> 100"
  shows "\<exists>st' shown. poll_step st t = Inr (st', shown) \<and> length (intervals st') \<le> 100"
proof (cases "last_seen st")
  case None
  then show ?thesis using assms by (simp add: poll_step_def)
next
  case (Some seen)
  let ?iv = "total_seconds (t - seen)"
  show ?thesis
  proof (cases "float_le min_poll_interval ?iv")
    case False
    with Some show ?thesis using assms by (simp add: poll_step_def)
  next
    case True
    let ?ivs = "deque_append (intervals st) ?iv"
    have l: "length ?ivs \<le> 100" using assms by (rule length_deque_append)
    have "(100::nat) < 2 ^ 1023" by simp
    with l have "length ?ivs < 2 ^ 1023" by (rule le_less_trans)
    then obtain y where "float_div_len (py_sum ?ivs) (length ?ivs) = Inr y"
      using float_div_len_total [of "length ?ivs"] length_deque_append(2) [of "intervals st" ?iv]
      by blast
    with Some True l show ?thesis
      by (simp add: poll_step_def Let_def bind_err_def length_deque_append(3))
  qed
qed

lemma poll_step_counted:
  assumes "last_seen st = Some seen" and "float_le min_poll_interval (total_seconds (t - seen))"
    and "length (intervals st) \<le> 100"
  shows "\<exists>st'. poll_step st t = Inr (st', Some (total_seconds (t - seen)))"
proof -
  let ?iv = "total_seconds (t - seen)"
  let ?ivs = "deque_append (intervals st) ?iv"
  have l: "length ?ivs \<le> 100" using assms(3) by (rule length_deque_append)
  have "(100::nat) < 2 ^ 1023" by simp
  with l have "length ?ivs < 2 ^ 1023" by (rule le_less_trans)
  then obtain y where "float_div_len (py_sum ?ivs) (length ?ivs) = Inr y"
    using float_div_len_total [of "length ?ivs"] length_deque_append(2) [of "intervals st" ?iv]
    by blast
  with assms(1,2) show ?thesis
    by (simp add: poll_step_def Let_def bind_err_def length_deque_append(3))
qed

lemma poll_step_too_soon:
  assumes "last_seen st = Some seen" and "float_lt (total_seconds (t - seen)) min_poll_interval"
  shows "poll_step st t = Inr (st, None)"
  using assms float_lt_not_le by (simp add: poll_step_def Let_def)

lemma analyze_frame_validity_fields:
  "analyze_frame_validity mon frame = (ok, mon1)
     \<Longrightarrow> mon1 = mon\<lparr>detected_protocols := detected_protocols mon1\<rparr>"
  unfolding analyze_frame_validity_def Let_def by (auto split: if_splits)

lemma process_frame_accepted:
  assumes "analyze_frame_validity mon frame = (True, mon1)"
    and "slave_ids mon = {} \<or> uint (frame ! 0) \<in> slave_ids mon"
    and "wave_step (wave_gap_threshold mon)
           (dd_get (wave_stats mon) (uint (frame ! 0)) wave_stat_default) now = Inr ws'"
    and "poll_step (dd_get (slave_stats mon) (uint (frame ! 0)) slave_stat_default) now
           = Inr (st', shown)"
  shows "\<exists>mon'. process_frame mon frame now = Inr mon'
           \<and> wave_stats mon' = (wave_stats mon)(uint (frame ! 0) \<mapsto> ws')
           \<and> slave_stats mon' = (slave_stats mon)(uint (frame ! 0) \<mapsto> st')
           \<and> data_queue mon' = data_queue mon @
                (case shown of
                   None \<Rightarrow> []
                 | Some interval \<Rightarrow>
                     [\<lparr>ev_timestamp = now, ev_slave_id = uint (frame ! 0),
                       ev_frame = hex_bytes frame, ev_length = length frame,
                       ev_interval = interval\<rparr>])
           \<and> slave_ids mon' = insert (uint (frame ! 0)) (slave_ids mon)
           \<and> wave_gap_threshold mon' = wave_gap_threshold mon"
proof -
  from analyze_frame_validity_fields [OF assms(1)] obtain p
    where m1: "mon1 = mon\<lparr>detected_protocols := p\<rparr>" by blast
  show ?thesis
    using assms(2,3,4)
    by (cases shown)
       (auto simp: process_frame_def assms(1) m1 Let_def update_wave_stats_def bind_err_def
          insert_absorb)
qed

lemma analyze_frame_17:
  "analyze_frame_validity mon frame_17
     = (True, mon\<lparr>detected_protocols := (detected_protocols mon)\<lparr>modbus_rtu := True\<rparr>\<rparr>)"
proof -
  have "unpack_le16 (frame_17 ! (length frame_17 - 2)) (frame_17 ! (length frame_17 - 1))
          = calculate_crc (take (length frame_17 - 2) frame_17)"
    using crc_valid_exception_frame by (simp add: crc_valid_def frame_17_def)
  moreover have "length frame_17 = 5" "uint (frame_17 ! 0) = 17" "uint (frame_17 ! 1) = 131"
    by (simp_all add: frame_17_def)
  moreover have "(131::int) \<in> set exception_functions"
    by (simp add: exception_functions_def valid_functions_def)
  ultimately show ?thesis
    unfolding analyze_frame_validity_def Let_def by simp
qed

lemma frame_17_id: "uint (frame_17 ! 0) = 17"
  by (simp add: frame_17_def)

lemma frame_17_step:
  assumes "slave_ids mon = {} \<or> 17 \<in> slave_ids mon"
    and "wave_step (wave_gap_threshold mon) (dd_get (wave_stats mon) 17 wave_stat_default) now
           = Inr ws'"
    and "length (intervals (dd_get (slave_stats mon) 17 slave_stat_default)) \<le> 100"
  shows "\<exists>mon'. process_frame mon frame_17 now = Inr mon' \<and> wave_stats mon' 17 = Some ws'
           \<and> 17 \<in> slave_ids mon' \<and> wave_gap_threshold mon' = wave_gap_threshold mon
           \<and> length (intervals (dd_get (slave_stats mon') 17 slave_stat_default)) \<le> 100"
proof -
  from poll_step_total [OF assms(3)] obtain st' shown where
    p: "poll_step (dd_get (slave_stats mon) 17 slave_stat_default) now = Inr (st', shown)"
    and l: "length (intervals st') \<le> 100" by blast
  from process_frame_accepted [OF analyze_frame_17, of mon now ws' st' shown]
       assms(1,2) p
  obtain mon' where "process_frame mon frame_17 now = Inr mon'"
    "wave_stats mon' = (wave_stats mon)(17 \<mapsto> ws')"
    "slave_stats mon' = (slave_stats mon)(17 \<mapsto> st')"
    "slave_ids mon' = insert 17 (slave_ids mon)"
    "wave_gap_threshold mon' = wave_gap_threshold mon"
    by (auto simp: frame_17_id)
  with l show ?thesis by (simp add: dd_get_def)
qed

lemma gap_100ms: "\<not> float_lt (Finite (1 / 2)) (total_seconds 100000)"
  by code_simp

lemma gap_800ms: "float_lt (Finite (1 / 2)) (total_seconds 800000)"
  by code_simp

lemma wave_scenario:
  "\<exists>mon' ws. process_frames (monitor_init [] (Finite (1 / 2)))
        [(frame_17, B), (frame_17, B + 100000), (frame_17, B + 200000), (frame_17, B + 1000000)]
          = Inr mon'
      \<and> wave_stats mon' 17 = Some ws
      \<and> waves ws = [\<lparr>wave_start = B, wave_end = B + 200000,
                      duration = total_seconds 200000, msg_count = 3\<rparr>]
      \<and> current_wave_start ws = Some (B + 1000000) \<and> current_wave_msgs ws = 1"
proof -
  let ?m0 = "monitor_init [] (Finite (1 / 2))"
  let ?w1 = "wave_stat_default\<lparr>current_wave_start := Some B, current_wave_msgs := 1,
                last_msg_time := Some B\<rparr>"
  let ?w2 = "?w1\<lparr>current_wave_msgs := 2, last_msg_time := Some (B + 100000)\<rparr>"
  let ?w3 = "?w2\<lparr>current_wave_msgs := 3, last_msg_time := Some (B + 200000)\<rparr>"
  have i0: "slave_ids ?m0 = {} \<or> 17 \<in> slave_ids ?m0" "wave_gap_threshold ?m0 = Finite (1 / 2)"
    "dd_get (wave_stats ?m0) 17 wave_stat_default = wave_stat_default"
    "length (intervals (dd_get (slave_stats ?m0) 17 slave_stat_default)) \<le> 100"
    by (simp_all add: monitor_init_def dd_get_def slave_stat_default_def)
  have "wave_step (Finite (1 / 2)) wave_stat_default B = Inr ?w1"
    by (simp add: wave_step_first wave_stat_default_def)
  with i0 frame_17_step [of ?m0 B ?w1] obtain m1 where
    m1: "process_frame ?m0 frame_17 B = Inr m1" "wave_stats m1 17 = Some ?w1"
      "17 \<in> slave_ids m1" "wave_gap_threshold m1 = Finite (1 / 2)"
      "length (intervals (dd_get (slave_stats m1) 17 slave_stat_default)) \<le> 100"
    by auto
  have "wave_step (Finite (1 / 2)) ?w1 (B + 100000) = Inr ?w2"
    using wave_step_continue [of ?w1 B "Finite (1 / 2)" "B + 100000"] gap_100ms by simp
  with m1 frame_17_step [of m1 "B + 100000" ?w2] obtain m2 where
    m2: "process_frame m1 frame_17 (B + 100000) = Inr m2" "wave_stats m2 17 = Some ?w2"
      "17 \<in> slave_ids m2" "wave_gap_threshold m2 = Finite (1 / 2)"
      "length (intervals (dd_get (slave_stats m2) 17 slave_stat_default)) \<le> 100"
    by (auto simp: dd_get_def)
  have "wave_step (Finite (1 / 2)) ?w2 (B + 200000) = Inr ?w3"
    using wave_step_continue [of ?w2 "B + 100000" "Finite (1 / 2)" "B + 200000"] gap_100ms
    by simp
  with m2 frame_17_step [of m2 "B + 200000" ?w3] obtain m3 where
    m3: "process_frame m2 frame_17 (B + 200000) = Inr m3" "wave_stats m3 17 = Some ?w3"
      "17 \<in> slave_ids m3" "wave_gap_threshold m3 = Finite (1 / 2)"
      "length (intervals (dd_get (slave_stats m3) 17 slave_stat_default)) \<le> 100"
    by (auto simp: dd_get_def)
  have "wave_counts_bounded ?w3"
    by (simp add: wave_counts_bounded_def wave_stat_default_def)
  from wave_step_close [of ?w3 "B + 200000" "Finite (1 / 2)" "B + 1000000" B, OF _ _ _ this]
       gap_800ms
  obtain w4 where w4: "wave_step (Finite (1 / 2)) ?w3 (B + 1000000) = Inr w4"
     "waves w4 = deque_append (waves ?w3)
         \<lparr>wave_start = B, wave_end = B + 200000,
          duration = total_seconds (B + 200000 - B), msg_count = current_wave_msgs ?w3\<rparr>"
     "current_wave_start w4 = Some (B + 1000000)" "current_wave_msgs w4 = 1"
    by auto
  with m3 frame_17_step [of m3 "B + 1000000" w4] obtain m4 where
    m4: "process_frame m3 frame_17 (B + 1000000) = Inr m4" "wave_stats m4 17 = Some w4"
    by (auto simp: dd_get_def)
  have "process_frames ?m0
        [(frame_17, B), (frame_17, B + 100000), (frame_17, B + 200000), (frame_17, B + 1000000)]
          = Inr m4"
    using m1(1) m2(1) m3(1) m4(1) by (simp add: bind_err_def)
  moreover have "waves w4 = [\<lparr>wave_start = B, wave_end = B + 200000,
                      duration = total_seconds 200000, msg_count = 3\<rparr>]"
    using w4(2) by (simp add: deque_append_def wave_stat_default_def)
  ultimately show ?thesis using m4(2) w4(3,4) by blast
qed

text \<open>
  Claim C9. Frames from slave 17 accepted at the times \<open>B\<close>, \<open>B\<close> + 0.1 s, \<open>B\<close> + 0.2 s and
  \<open>B\<close> + 1.0 s, with a wave-gap threshold of 0.5 s on a fresh monitor, leave exactly one
  closed wave in that slave's history, of 3 messages, from \<open>B\<close> to \<open>B\<close> + 0.2 s, and an
  open wave started at \<open>B\<close> + 1.0 s with 1 message. In general, for a slave with an open
  wave (counts and deques within bounds): a gap strictly greater than the threshold
  closes the open wave into the history, with its start, the time of its last message,
  its duration and its message count, and opens a new wave of 1 message at the
  frame's time; any other gap only increments the message count of the open wave (and
  moves the last-message time).
\<close>

theorem C9_wave_segmentation:
  "(\<forall>B. \<exists>mon' ws. process_frames (monitor_init [] (Finite (1 / 2)))
        [(frame_17, B), (frame_17, B + 100000), (frame_17, B + 200000), (frame_17, B + 1000000)]
          = Inr mon'
      \<and> wave_stats mon' 17 = Some ws
      \<and> waves ws = [\<lparr>wave_start = B, wave_end = B + 200000,
                      duration = total_seconds 200000, msg_count = 3\<rparr>]
      \<and> current_wave_start ws = Some (B + 1000000) \<and> current_wave_msgs ws = 1)
   \<and> (\<forall>mon sid ws l cws t.
        wave_stats mon sid = Some ws \<and> last_msg_time ws = Some l
          \<and> current_wave_start ws = Some cws \<and> wave_counts_bounded ws
        \<longrightarrow> (if float_lt (wave_gap_threshold mon) (total_seconds (t - l))
             then \<exists>ws'. update_wave_stats mon sid t
                           = Inr (mon\<lparr>wave_stats := (wave_stats mon)(sid \<mapsto> ws')\<rparr>)
                    \<and> waves ws' = deque_append (waves ws)
                         \<lparr>wave_start = cws, wave_end = l,
                          duration = total_seconds (l - cws),
                          msg_count = current_wave_msgs ws\<rparr>
                    \<and> current_wave_start ws' = Some t \<and> current_wave_msgs ws' = 1
                    \<and> last_msg_time ws' = Some t
             else update_wave_stats mon sid t
                    = Inr (mon\<lparr>wave_stats := (wave_stats mon)
                             (sid \<mapsto> ws\<lparr>current_wave_msgs := current_wave_msgs ws + 1,
                                         last_msg_time := Some t\<rparr>)\<rparr>)))"
proof (intro conjI allI impI)
  fix B show "\<exists>mon' ws. process_frames (monitor_init [] (Finite (1 / 2)))
        [(frame_17, B), (frame_17, B + 100000), (frame_17, B + 200000), (frame_17, B + 1000000)]
          = Inr mon'
      \<and> wave_stats mon' 17 = Some ws
      \<and> waves ws = [\<lparr>wave_start = B, wave_end = B + 200000,
                      duration = total_seconds 200000, msg_count = 3\<rparr>]
      \<and> current_wave_start ws = Some (B + 1000000) \<and> current_wave_msgs ws = 1"
    by (rule wave_scenario)
next
  fix mon :: monitor and sid ws l cws t
  assume h: "wave_stats mon sid = Some ws \<and> last_msg_time ws = Some l
          \<and> current_wave_start ws = Some cws \<and> wave_counts_bounded ws"
  then have d: "dd_get (wave_stats mon) sid wave_stat_default = ws" by (simp add: dd_get_def)
  show "if float_lt (wave_gap_threshold mon) (total_seconds (t - l))
             then \<exists>ws'. update_wave_stats mon sid t
                           = Inr (mon\<lparr>wave_stats := (wave_stats mon)(sid \<mapsto> ws')\<rparr>)
                    \<and> waves ws' = deque_append (waves ws)
                         \<lparr>wave_start = cws, wave_end = l,
                          duration = total_seconds (l - cws),
                          msg_count = current_wave_msgs ws\<rparr>
                    \<and> current_wave_start ws' = Some t \<and> current_wave_msgs ws' = 1
                    \<and> last_msg_time ws' = Some t
             else update_wave_stats mon sid t
                    = Inr (mon\<lparr>wave_stats := (wave_stats mon)
                             (sid \<mapsto> ws\<lparr>current_wave_msgs := current_wave_msgs ws + 1,
                                         last_msg_time := Some t\<rparr>)\<rparr>)"
  proof (cases "float_lt (wave_gap_threshold mon) (total_seconds (t - l))")
    case True
    from h wave_step_close [of ws l "wave_gap_threshold mon" t cws] True
    obtain ws' where "wave_step (wave_gap_threshold mon) ws t = Inr ws'"
      "waves ws' = deque_append (waves ws)
                         \<lparr>wave_start = cws, wave_end = l,
                          duration = total_seconds (l - cws),
                          msg_count = current_wave_msgs ws\<rparr>"
      "current_wave_start ws' = Some t" "current_wave_msgs ws' = 1" "last_msg_time ws' = Some t"
      by auto
    with True show ?thesis by (auto simp: update_wave_stats_def d bind_err_def)
  next
    case False
    with h wave_step_continue [of ws l "wave_gap_threshold mon" t]
    show ?thesis by (simp add: update_wave_stats_def d bind_err_def)
  qed
qed

theorem C9_wave_segmentation_witness:
  "wave_stats monitor_3 17 = Some open_wave_3 \<and> last_msg_time open_wave_3 = Some 200000
   \<and> current_wave_start open_wave_3 = Some 0 \<and> wave_counts_bounded open_wave_3
   \<and> float_lt (wave_gap_threshold monitor_3) (total_seconds (1000000 - 200000))
   \<and> \<not> float_lt (wave_gap_threshold monitor_3) (total_seconds (300000 - 200000))
   \<and> (\<exists>ws'. update_wave_stats monitor_3 17 1000000
                = Inr (monitor_3\<lparr>wave_stats := (wave_stats monitor_3)(17 \<mapsto> ws')\<rparr>)
          \<and> waves ws' = [\<lparr>wave_start = 0, wave_end = 200000,
                           duration = total_seconds 200000, msg_count = 3\<rparr>]
          \<and> current_wave_start ws' = Some 1000000 \<and> current_wave_msgs ws' = 1)
   \<and> update_wave_stats monitor_3 17 300000
       = Inr (monitor_3\<lparr>wave_stats := (wave_stats monitor_3)
                (17 \<mapsto> open_wave_3\<lparr>current_wave_msgs := 4, last_msg_time := Some 300000\<rparr>)\<rparr>)"
proof -
  have h: "wave_stats monitor_3 17 = Some open_wave_3 \<and> last_msg_time open_wave_3 = Some 200000
     \<and> current_wave_start open_wave_3 = Some 0 \<and> wave_counts_bounded open_wave_3"
    by (simp add: monitor_3_def open_wave_3_def wave_counts_bounded_def wave_stat_default_def)
  have thr: "wave_gap_threshold monitor_3 = Finite (1 / 2)"
    by (simp add: monitor_3_def monitor_init_def)
  have g1: "float_lt (wave_gap_threshold monitor_3) (total_seconds (1000000 - 200000))"
    using gap_800ms by (simp add: thr)
  have g2: "\<not> float_lt (wave_gap_threshold monitor_3) (total_seconds (300000 - 200000))"
    using gap_100ms by (simp add: thr)
  from C9_wave_segmentation have gen: "\<And>t.
        wave_stats monitor_3 17 = Some open_wave_3 \<and> last_msg_time open_wave_3 = Some 200000
          \<and> current_wave_start open_wave_3 = Some 0 \<and> wave_counts_bounded open_wave_3
        \<longrightarrow> (if float_lt (wave_gap_threshold monitor_3) (total_seconds (t - 200000))
             then \<exists>ws'. update_wave_stats monitor_3 17 t
                           = Inr (monitor_3\<lparr>wave_stats := (wave_stats monitor_3)(17 \<mapsto> ws')\<rparr>)
                    \<and> waves ws' = deque_append (waves open_wave_3)
                         \<lparr>wave_start = 0, wave_end = 200000,
                          duration = total_seconds (200000 - 0),
                          msg_count = current_wave_msgs open_wave_3\<rparr>
                    \<and> current_wave_start ws' = Some t \<and> current_wave_msgs ws' = 1
                    \<and> last_msg_time ws' = Some t
             else update_wave_stats monitor_3 17 t
                    = Inr (monitor_3\<lparr>wave_stats := (wave_stats monitor_3)
                             (17 \<mapsto> open_wave_3\<lparr>current_wave_msgs := current_wave_msgs open_wave_3 + 1,
                                         last_msg_time := Some t\<rparr>)\<rparr>))"
    by blast
  from gen [of 1000000] h g1 obtain ws' where
    "update_wave_stats monitor_3 17 1000000
                = Inr (monitor_3\<lparr>wave_stats := (wave_stats monitor_3)(17 \<mapsto> ws')\<rparr>)"
    "waves ws' = deque_append (waves open_wave_3)
                         \<lparr>wave_start = 0, wave_end = 200000,
                          duration = total_seconds (200000 - 0),
                          msg_count = current_wave_msgs open_wave_3\<rparr>"
    "current_wave_start ws' = Some 1000000" "current_wave_msgs ws' = 1"
    by auto
  then have a: "\<exists>ws'. update_wave_stats monitor_3 17 1000000
                = Inr (monitor_3\<lparr>wave_stats := (wave_stats monitor_3)(17 \<mapsto> ws')\<rparr>)
          \<and> waves ws' = [\<lparr>wave_start = 0, wave_end = 200000,
                           duration = total_seconds 200000, msg_count = 3\<rparr>]
          \<and> current_wave_start ws' = Some 1000000 \<and> current_wave_msgs ws' = 1"
    by (auto simp: open_wave_3_def wave_stat_default_def deque_append_def)
  from gen [of 300000] h g2 have b: "update_wave_stats monitor_3 17 300000
       = Inr (monitor_3\<lparr>wave_stats := (wave_stats monitor_3)
                (17 \<mapsto> open_wave_3\<lparr>current_wave_msgs := 4, last_msg_time := Some 300000\<rparr>)\<rparr>)"
    by (simp add: open_wave_3_def)
  from h g1 g2 a b show ?thesis by blast
qed

subsection \<open>Frames faster than the minimum poll interval\<close>

lemma time_since_seen: "last_seen st = Some seen \<Longrightarrow> time_since st T = total_seconds (T - seen)"
  by (simp add: time_since_def)

lemma slave_rate_since:
  "slave_rate mon T sid = Inr e \<Longrightarrow>
     time_since_last e = time_since (dd_get (slave_stats mon) sid slave_stat_default) T
     \<and> rate_status e = classify (time_since (dd_get (slave_stats mon) sid slave_stat_default) T)"
  unfolding slave_rate_def Let_def bind_err_def
  by (auto split: sum.splits if_splits)

text \<open>
  Claim C10. Let the monitor accept a frame from a slave whose stored last-seen time is
  less than 0.010 s before the frame's time (the wave counts of the slave within bounds).
  Then processing the frame returns a monitor in which the polling statistics are
  untouched: the dictionary of slave statistics is the same (count, last-seen time,
  intervals, minimum, maximum and average of the slave included) and nothing is queued
  for display; the wave statistics of the slave are updated all the same: its
  last-message time is the frame's time, and its open-wave message count is incremented
  (or restarted at 1 when the frame opens a wave). Consequently the time since the last
  message that \<open>get_current_rates\<close> computes and classifies, and the interval the next
  counted frame records, are measured from the stored last-seen time, the last counted
  poll.
\<close>

theorem C10_fast_frame_leaves_poll_stats:
  assumes "analyze_frame_validity mon frame = (True, mon1)"
    and "slave_ids mon = {} \<or> uint (frame ! 0) \<in> slave_ids mon"
    and "slave_stats mon (uint (frame ! 0)) = Some st" and "last_seen st = Some seen"
    and "float_lt (total_seconds (now - seen)) min_poll_interval"
    and "wave_counts_bounded (dd_get (wave_stats mon) (uint (frame ! 0)) wave_stat_default)"
  shows "\<exists>mon' ws'. process_frame mon frame now = Inr mon'
      \<and> slave_stats mon' = slave_stats mon \<and> data_queue mon' = data_queue mon
      \<and> wave_stats mon' = (wave_stats mon)(uint (frame ! 0) \<mapsto> ws')
      \<and> wave_step (wave_gap_threshold mon)
           (dd_get (wave_stats mon) (uint (frame ! 0)) wave_stat_default) now = Inr ws'
      \<and> last_msg_time ws' = Some now
      \<and> current_wave_msgs ws'
          = (case last_msg_time (dd_get (wave_stats mon) (uint (frame ! 0)) wave_stat_default) of
               Some l \<Rightarrow> if float_lt (wave_gap_threshold mon) (total_seconds (now - l)) then 1
                          else current_wave_msgs
                                 (dd_get (wave_stats mon) (uint (frame ! 0)) wave_stat_default) + 1
             | None \<Rightarrow> 1)
      \<and> (\<forall>T. time_since (dd_get (slave_stats mon') (uint (frame ! 0)) slave_stat_default) T
               = total_seconds (T - seen))
      \<and> (\<forall>T e. slave_rate mon' T (uint (frame ! 0)) = Inr e
            \<longrightarrow> time_since_last e = total_seconds (T - seen)
              \<and> rate_status e = classify (total_seconds (T - seen)))
      \<and> (\<forall>t2. float_le min_poll_interval (total_seconds (t2 - seen)) \<and> length (intervals st) \<le> 100
            \<longrightarrow> (\<exists>st'. poll_step (dd_get (slave_stats mon') (uint (frame ! 0)) slave_stat_default) t2
                          = Inr (st', Some (total_seconds (t2 - seen)))))"
proof -
  let ?sid = "uint (frame ! 0)"
  let ?ws = "dd_get (wave_stats mon) ?sid wave_stat_default"
  have d: "dd_get (slave_stats mon) ?sid slave_stat_default = st"
    using assms(3) by (simp add: dd_get_def)
  from wave_step_total [OF assms(6), of "wave_gap_threshold mon" now] obtain ws' where
    w: "wave_step (wave_gap_threshold mon) ?ws now = Inr ws'" "last_msg_time ws' = Some now"
      "current_wave_msgs ws'
          = (case last_msg_time ?ws of
               Some l \<Rightarrow> if float_lt (wave_gap_threshold mon) (total_seconds (now - l)) then 1
                          else current_wave_msgs ?ws + 1
             | None \<Rightarrow> 1)"
    by blast
  have p: "poll_step (dd_get (slave_stats mon) ?sid slave_stat_default) now = Inr (st, None)"
    unfolding d using assms(4,5) by (rule poll_step_too_soon)
  from process_frame_accepted [OF assms(1,2) w(1) p] obtain mon' where
    m: "process_frame mon frame now = Inr mon'"
       "wave_stats mon' = (wave_stats mon)(?sid \<mapsto> ws')"
       "slave_stats mon' = (slave_stats mon)(?sid \<mapsto> st)"
       "data_queue mon' = data_queue mon"
    by auto
  have s: "slave_stats mon' = slave_stats mon"
    unfolding m(3) using assms(3) by (rule map_upd_triv)
  then have d': "dd_get (slave_stats mon') ?sid slave_stat_default = st" by (simp add: d)
  have t: "\<forall>T. time_since (dd_get (slave_stats mon') ?sid slave_stat_default) T
               = total_seconds (T - seen)"
    unfolding d' using assms(4) by (simp add: time_since_seen)
  have r: "\<forall>T e. slave_rate mon' T ?sid = Inr e
            \<longrightarrow> time_since_last e = total_seconds (T - seen)
              \<and> rate_status e = classify (total_seconds (T - seen))"
    using slave_rate_since [of mon' _ ?sid] t by auto
  have n: "\<forall>t2. float_le min_poll_interval (total_seconds (t2 - seen)) \<and> length (intervals st) \<le> 100
            \<longrightarrow> (\<exists>st'. poll_step (dd_get (slave_stats mon') ?sid slave_stat_default) t2
                          = Inr (st', Some (total_seconds (t2 - seen))))"
    unfolding d' using poll_step_counted [OF assms(4)] by blast
  from m(1) s m(4) m(2) w t r n show ?thesis by blast
qed

lemma interval_5ms: "float_lt (total_seconds (5000 - 0)) min_poll_interval"
  by code_simp

theorem C10_fast_frame_leaves_poll_stats_witness:
  "analyze_frame_validity monitor_1 frame_17
      = (True, monitor_1\<lparr>detected_protocols :=
                 (detected_protocols monitor_1)\<lparr>modbus_rtu := True\<rparr>\<rparr>)
   \<and> (slave_ids monitor_1 = {} \<or> uint (frame_17 ! 0) \<in> slave_ids monitor_1)
   \<and> slave_stats monitor_1 (uint (frame_17 ! 0)) = Some seen_once
   \<and> last_seen seen_once = Some 0
   \<and> float_lt (total_seconds (5000 - 0)) min_poll_interval
   \<and> wave_counts_bounded (dd_get (wave_stats monitor_1) (uint (frame_17 ! 0)) wave_stat_default)
   \<and> (\<exists>mon' ws'. process_frame monitor_1 frame_17 5000 = Inr mon'
         \<and> slave_stats mon' = slave_stats monitor_1 \<and> data_queue mon' = []
         \<and> wave_stats mon' 17 = Some ws'
         \<and> last_msg_time ws' = Some 5000 \<and> current_wave_msgs ws' = 2
         \<and> time_since (dd_get (slave_stats mon') 17 slave_stat_default) 2000000
             = total_seconds 2000000)"
proof -
  have i: "uint (frame_17 ! 0) = 17" by (rule frame_17_id)
  have h2: "slave_ids monitor_1 = {} \<or> uint (frame_17 ! 0) \<in> slave_ids monitor_1"
    by (simp add: monitor_1_def i)
  have h3: "slave_stats monitor_1 (uint (frame_17 ! 0)) = Some seen_once"
    by (simp add: monitor_1_def i)
  have h4: "last_seen seen_once = Some 0" by (simp add: seen_once_def)
  have w: "dd_get (wave_stats monitor_1) (uint (frame_17 ! 0)) wave_stat_default = open_wave_1"
    by (simp add: monitor_1_def i dd_get_def)
  have h6: "wave_counts_bounded (dd_get (wave_stats monitor_1) (uint (frame_17 ! 0)) wave_stat_default)"
    unfolding w by (simp add: wave_counts_bounded_def open_wave_1_def wave_stat_default_def)
  have g: "\<not> float_lt (Finite (1 / 2)) (total_seconds (5000 - 0))" by code_simp
  have thr: "wave_gap_threshold monitor_1 = Finite (1 / 2)"
    by (simp add: monitor_1_def monitor_init_def)
  have q: "data_queue monitor_1 = []"
    by (simp add: monitor_1_def monitor_init_def)
  have ow: "last_msg_time open_wave_1 = Some 0" "current_wave_msgs open_wave_1 = 1"
    by (simp_all add: open_wave_1_def)
  from C10_fast_frame_leaves_poll_stats [OF analyze_frame_17 h2 h3 h4 interval_5ms h6]
  obtain mon' ws' where r:
    "process_frame monitor_1 frame_17 5000 = Inr mon'"
    "slave_stats mon' = slave_stats monitor_1" "data_queue mon' = data_queue monitor_1"
    "wave_stats mon' = (wave_stats monitor_1)(uint (frame_17 ! 0) \<mapsto> ws')"
    "last_msg_time ws' = Some 5000"
    "current_wave_msgs ws'
          = (case last_msg_time (dd_get (wave_stats monitor_1) (uint (frame_17 ! 0)) wave_stat_default) of
               Some l \<Rightarrow> if float_lt (wave_gap_threshold monitor_1) (total_seconds (5000 - l)) then 1
                          else current_wave_msgs
                                 (dd_get (wave_stats monitor_1) (uint (frame_17 ! 0)) wave_stat_default) + 1
             | None \<Rightarrow> 1)"
    "\<forall>T. time_since (dd_get (slave_stats mon') (uint (frame_17 ! 0)) slave_stat_default) T
               = total_seconds (T - 0)"
    by blast
  from r(6) have c: "current_wave_msgs ws' = 2"
    unfolding w ow thr using g by simp
  from r(4) have ws: "wave_stats mon' 17 = Some ws'" by (simp add: i)
  from r(7) have ts: "time_since (dd_get (slave_stats mon') 17 slave_stat_default) 2000000
             = total_seconds 2000000"
    by (simp add: i)
  from r(1,2,3) r(5) c ws ts q have "process_frame monitor_1 frame_17 5000 = Inr mon'
         \<and> slave_stats mon' = slave_stats monitor_1 \<and> data_queue mon' = []
         \<and> wave_stats mon' 17 = Some ws'
         \<and> last_msg_time ws' = Some 5000 \<and> current_wave_msgs ws' = 2
         \<and> time_since (dd_get (slave_stats mon') 17 slave_stat_default) 2000000
             = total_seconds 2000000"
    by simp
  with analyze_frame_17 h2 h3 h4 interval_5ms h6 show ?thesis by blast
qed

end
